theory Spec2Isabelle
  imports Complex_Main
begin

section \<open>Python strings\<close>

text \<open>
  The scripts work on Python \<open>str\<close> values. A text is modelled as a \<open>string\<close>, one
  \<open>char\<close> per character, which covers the characters up to code point 255; the KEGG
  flat files and identifiers are ASCII. The string methods the scripts call are
  written out below.
\<close>

definition NL :: char where
  "NL = CHR 0x0A"

definition TAB :: char where
  "TAB = CHR 0x09"

text \<open>\<open>s.startswith(p)\<close>.\<close>

fun startswith :: "string \<Rightarrow> string \<Rightarrow> bool" where
  "startswith s [] = True"
| "startswith [] (p # ps) = False"
| "startswith (c # cs) (p # ps) = (c = p \<and> startswith cs ps)"

text \<open>
  \<open>s.split(sep)\<close> for a one-character separator: the pieces between the separators,
  always at least one piece (\<open>''.split('\n')\<close> is \<open>['']\<close>).
\<close>

fun split :: "char \<Rightarrow> string \<Rightarrow> string list" where
  "split sep [] = [[]]"
| "split sep (c # cs) =
     (if c = sep then [] # split sep cs
      else (case split sep cs of
              [] \<Rightarrow> [[c]]
            | p # ps \<Rightarrow> (c # p) # ps))"

text \<open>
  The characters \<open>str.strip()\<close> removes: those for which \<open>str.isspace()\<close> holds. Up to
  code point 255 these are TAB, LF, VT, FF, CR, FS, GS, RS, US, space, NEL and the
  no-break space.
\<close>

definition isspace :: "char \<Rightarrow> bool" where
  "isspace c = (c \<in> {CHR 0x09, CHR 0x0A, CHR 0x0B, CHR 0x0C, CHR 0x0D,
                      CHR 0x1C, CHR 0x1D, CHR 0x1E, CHR 0x1F, CHR 0x20,
                      CHR 0x85, CHR 0xA0})"

definition lstrip :: "string \<Rightarrow> string" where
  "lstrip s = dropWhile isspace s"

definition rstrip :: "string \<Rightarrow> string" where
  "rstrip s = rev (dropWhile isspace (rev s))"

definition strip :: "string \<Rightarrow> string" where
  "strip s = rstrip (lstrip s)"

text \<open>
  \<open>s.replace(old, '')\<close> for a non-empty \<open>old\<close>: every non-overlapping occurrence of
  \<open>old\<close>, found from the left, is removed.
\<close>

fun remove_all :: "string \<Rightarrow> string \<Rightarrow> string" where
  "remove_all old [] = []"
| "remove_all old (c # cs) =
     (if startswith (c # cs) old \<and> old \<noteq> []
      then remove_all old (drop (length old - 1) cs)
      else c # remove_all old cs)"

section \<open>The file sink of the disease script\<close>

text \<open>
  \<open>write_sql_file(results, output_file)\<close> of getDiseasePathways.py. The file is the
  list of the strings passed to \<open>sql_file.write\<close>, in order; its contents are their
  concatenation. The function returns the three counters; the model returns the
  written file with them.
\<close>

definition insert_sql :: "string \<Rightarrow> string \<Rightarrow> string" where
  "insert_sql disease_id pathway =
     ''INSERT INTO DiseasePathways (disease_id, pathway_id) VALUES ('' @ [CHR 0x27] @
     disease_id @ [CHR 0x27] @ '', '' @ [CHR 0x27] @ (''path:'' @ pathway) @ [CHR 0x27] @
     '');'' @ [NL]"

record sink =
  sql_file :: "string list"
  insert_count :: int
  diseases_with_pathways :: int
  diseases_without_pathways :: int

text \<open>The inner loop \<open>for pathway in pathways\<close>.\<close>

fun write_pathways :: "string \<Rightarrow> string list \<Rightarrow> sink \<Rightarrow> sink" where
  "write_pathways disease_id [] k = k"
| "write_pathways disease_id (pathway # pathways) k =
     write_pathways disease_id pathways
       (k\<lparr>sql_file := sql_file k @ [insert_sql disease_id pathway],
          insert_count := insert_count k + 1\<rparr>)"

text \<open>The outer loop \<open>for disease_id, pathways in results\<close>.\<close>

fun write_results :: "(string \<times> string list) list \<Rightarrow> sink \<Rightarrow> sink" where
  "write_results [] k = k"
| "write_results ((disease_id, pathways) # results) k =
     write_results results
       (if pathways \<noteq> []
        then write_pathways disease_id pathways
               (k\<lparr>diseases_with_pathways := diseases_with_pathways k + 1\<rparr>)
        else k\<lparr>diseases_without_pathways := diseases_without_pathways k + 1\<rparr>)"

definition sql_header :: "string list" where
  "sql_header =
     [''BEGIN TRANSACTION;'' @ [NL, NL],
      ''DELETE FROM DiseasePathways;'' @ [NL],
      ''-- Inserting disease-pathway relationships'' @ [NL, NL]]"

definition sql_footer :: "string list" where
  "sql_footer = [[NL] @ ''COMMIT;'' @ [NL]]"

definition write_sql_file :: "(string \<times> string list) list \<Rightarrow> sink" where
  "write_sql_file results =
     (let k = write_results results
                \<lparr>sql_file = sql_header, insert_count = 0,
                 diseases_with_pathways = 0, diseases_without_pathways = 0\<rparr>
      in k\<lparr>sql_file := sql_file k @ sql_footer\<rparr>)"

text \<open>The INSERT statements the claim expects: one per pathway of each result, in order.\<close>

definition expected_inserts :: "(string \<times> string list) list \<Rightarrow> string list" where
  "expected_inserts results =
     concat (map (\<lambda>(disease_id, pathways). map (insert_sql disease_id) pathways) results)"

section \<open>The world the scripts run in\<close>

text \<open>
  The scripts talk to HTTP servers, read a random number generator, sleep and print.
  These effects are explicit: the environment fixes what the outside answers, and
  the \<open>world\<close> records what the script has done so far.

  \<^item> \<open>net n url\<close> is the outcome of the GET request to \<open>url\<close> that is the \<open>n\<close>-th
    request the process issues (counting from 0): \<open>requests.get\<close> either raises or
    returns a response with a status code and a text (\<open>resp_text\<close> is \<open>response.text\<close>).
  \<^item> \<open>rnd n\<close> is the value of the \<open>n\<close>-th call of \<open>random.random()\<close>, a number in
    \<open>[0, 1)\<close>; \<open>random.uniform(a, b)\<close> is \<open>a + (b - a) * random()\<close>.
  \<^item> \<open>clock n\<close> is the value of the \<open>n\<close>-th call of \<open>time.time()\<close>.
  \<^item> Times and delays are Python floats; they are modelled as real numbers.
\<close>

record response =
  status_code :: int
  resp_text :: string

datatype outcome = Raised | Responded response

datatype py_error = ValueError | IndexError | WorkerError string

datatype event =
    StatusFailed int int int
  | ErrorFailed int int
  | FailedAfter int
  | Success int string int
  | AttemptStatus int string int
  | AttemptError int string
  | FailedToFetch string int
  | ChunkError int string py_error
  | KeggError int string
  | KeggException string

record world =
  requested :: "string list"
  slept :: "real list"
  drawn :: nat
  clock_reads :: nat
  logged :: "event list"

definition world0 :: world where
  "world0 = \<lparr>requested = [], slept = [], drawn = 0, clock_reads = 0, logged = []\<rparr>"

definition http_get :: "(nat \<Rightarrow> string \<Rightarrow> outcome) \<Rightarrow> string \<Rightarrow> world \<Rightarrow> outcome \<times> world" where
  "http_get net url w = (net (length (requested w)) url, w\<lparr>requested := requested w @ [url]\<rparr>)"

definition uniform :: "(nat \<Rightarrow> real) \<Rightarrow> real \<Rightarrow> real \<Rightarrow> world \<Rightarrow> real \<times> world" where
  "uniform rnd a b w = (a + (b - a) * rnd (drawn w), w\<lparr>drawn := Suc (drawn w)\<rparr>)"

text \<open>\<open>time.sleep(secs)\<close> raises \<open>ValueError\<close> for a negative duration.\<close>

definition sleep :: "real \<Rightarrow> world \<Rightarrow> py_error + world" where
  "sleep secs w = (if secs < 0 then Inl ValueError else Inr (w\<lparr>slept := slept w @ [secs]\<rparr>))"

definition time_time :: "(nat \<Rightarrow> real) \<Rightarrow> world \<Rightarrow> real \<times> world" where
  "time_time clock w = (clock (clock_reads w), w\<lparr>clock_reads := Suc (clock_reads w)\<rparr>)"

definition print :: "event \<Rightarrow> world \<Rightarrow> world" where
  "print e w = w\<lparr>logged := logged w @ [e]\<rparr>"

section \<open>The retry helpers\<close>

text \<open>
  \<open>make_request_with_retry(url, max_retries=20, initial_delay=1)\<close> of
  getDiseasePathways.py. The delay is its lines 24 and 26.
\<close>

definition disease_delay :: "real \<Rightarrow> real \<Rightarrow> real" where
  "disease_delay initial_delay jitter = min (initial_delay + jitter) 60"

text \<open>
  The loop \<open>for attempt in range(max_retries)\<close>, over the attempt numbers still to
  run. A result \<open>Inr (Some r)\<close> is the early \<open>return response\<close>, \<open>Inr None\<close> is the
  loop running out, \<open>Inl e\<close> an exception that leaves the function.
\<close>

fun disease_attempts ::
  "(nat \<Rightarrow> string \<Rightarrow> outcome) \<Rightarrow> (nat \<Rightarrow> real) \<Rightarrow> string \<Rightarrow> int \<Rightarrow> real \<Rightarrow> nat list \<Rightarrow> world
     \<Rightarrow> (py_error + response option) \<times> world" where
  "disease_attempts net rnd url max_retries initial_delay [] w = (Inr None, w)"
| "disease_attempts net rnd url max_retries initial_delay (attempt # rest) w =
     (let (got, w1) = http_get net url w in
      case (case got of
              Responded response \<Rightarrow>
                if status_code response = 200 then Inl response
                else Inr (print (StatusFailed (status_code response) (int attempt + 1) max_retries) w1)
            | Raised \<Rightarrow> Inr (print (ErrorFailed (int attempt + 1) max_retries) w1)) of
        Inl response \<Rightarrow> (Inr (Some response), w1)
      | Inr w2 \<Rightarrow>
          (let (jitter, w3) = uniform rnd 0 1 w2;
               delay = disease_delay initial_delay jitter
           in case sleep delay w3 of
                Inl e \<Rightarrow> (Inl e, w3)
              | Inr w4 \<Rightarrow> disease_attempts net rnd url max_retries initial_delay rest w4))"

definition make_request_with_retry ::
  "(nat \<Rightarrow> string \<Rightarrow> outcome) \<Rightarrow> (nat \<Rightarrow> real) \<Rightarrow> string \<Rightarrow> int \<Rightarrow> real \<Rightarrow> world
     \<Rightarrow> (py_error + response option) \<times> world" where
  "make_request_with_retry net rnd url max_retries initial_delay w =
     (case disease_attempts net rnd url max_retries initial_delay [0..<nat max_retries] w of
        (Inr None, w') \<Rightarrow> (Inr None, print (FailedAfter max_retries) w')
      | r \<Rightarrow> r)"

text \<open>
  \<open>request_with_retry(url, max_retries=20, pause=1)\<close> of
  getSMILESforDrugsAndCompounds.py. The delay is the argument of its line 80.
\<close>

definition smiles_delay :: "real \<Rightarrow> real \<Rightarrow> real" where
  "smiles_delay pause jitter = pause + jitter"

fun smiles_attempts ::
  "(nat \<Rightarrow> string \<Rightarrow> outcome) \<Rightarrow> (nat \<Rightarrow> real) \<Rightarrow> string \<Rightarrow> real \<Rightarrow> nat list \<Rightarrow> world
     \<Rightarrow> (py_error + response option) \<times> world" where
  "smiles_attempts net rnd url pause [] w = (Inr None, w)"
| "smiles_attempts net rnd url pause (attempt # rest) w =
     (let (got, w1) = http_get net url w in
      case (case got of
              Responded resp \<Rightarrow>
                if status_code resp = 200 \<and> strip (resp_text resp) \<noteq> []
                then Inl (resp, print (Success (int attempt) url (status_code resp)) w1)
                else Inr (print (AttemptStatus (int attempt) url (status_code resp)) w1)
            | Raised \<Rightarrow> Inr (print (AttemptError (int attempt) url) w1)) of
        Inl (resp, w2) \<Rightarrow> (Inr (Some resp), w2)
      | Inr w2 \<Rightarrow>
          (let (jitter, w3) = uniform rnd (1 / 10) 1 w2
           in case sleep (smiles_delay pause jitter) w3 of
                Inl e \<Rightarrow> (Inl e, w3)
              | Inr w4 \<Rightarrow> smiles_attempts net rnd url pause rest w4))"

definition request_with_retry ::
  "(nat \<Rightarrow> string \<Rightarrow> outcome) \<Rightarrow> (nat \<Rightarrow> real) \<Rightarrow> string \<Rightarrow> int \<Rightarrow> real \<Rightarrow> world
     \<Rightarrow> (py_error + response option) \<times> world" where
  "request_with_retry net rnd url max_retries pause w =
     (case smiles_attempts net rnd url pause [1..<nat (max_retries + 1)] w of
        (Inr None, w') \<Rightarrow> (Inr None, print (FailedToFetch url max_retries) w')
      | r \<Rightarrow> r)"

text \<open>An attempt fails in the sense of the specification: an exception or a status other than 200.\<close>

definition failed :: "outcome \<Rightarrow> bool" where
  "failed got = (case got of Raised \<Rightarrow> True | Responded r \<Rightarrow> status_code r \<noteq> 200)"

text \<open>An attempt the SMILES helper does not accept: it also rejects a blank body.\<close>

definition rejected :: "outcome \<Rightarrow> bool" where
  "rejected got =
     (case got of Raised \<Rightarrow> True | Responded r \<Rightarrow> status_code r \<noteq> 200 \<or> strip (resp_text r) = [])"

section \<open>The rate limiter of the drug script\<close>

text \<open>
  \<open>RateLimiter\<close> of getDrugPathways.py. The queue \<open>calls\<close> is the list of recorded
  timestamps, oldest first. The lock makes \<open>acquire\<close> a critical section, so the
  acquisitions of a process happen one after the other.
\<close>

record rate_limiter =
  max_calls :: int
  time_period :: real
  calls :: "real list"

definition RateLimiter :: "int \<Rightarrow> real \<Rightarrow> rate_limiter" where
  "RateLimiter mc tp = \<lparr>max_calls = mc, time_period = tp, calls = []\<rparr>"

text \<open>The loop \<open>while not self.calls.empty()\<close> that removes old calls.\<close>

fun evict :: "real \<Rightarrow> real \<Rightarrow> real list \<Rightarrow> real list" where
  "evict current_time tp [] = []"
| "evict current_time tp (old_call # q) =
     (if current_time - old_call < tp then old_call # q else evict current_time tp q)"

text \<open>
  The body of \<open>acquire\<close> once \<open>current_time\<close> is read: the result is the duration
  passed to \<open>time.sleep\<close>, if it is called, and the limiter afterwards.
  \<open>self.calls.queue[0]\<close> on an empty queue raises \<open>IndexError\<close>.
\<close>

definition acquire_at :: "real \<Rightarrow> rate_limiter \<Rightarrow> (py_error + real option) \<times> rate_limiter" where
  "acquire_at current_time limiter =
     (let q = evict current_time (time_period limiter) (calls limiter) in
      if max_calls limiter \<le> int (length q) then
        (case q of
           [] \<Rightarrow> (Inl IndexError, limiter\<lparr>calls := q\<rparr>)
         | oldest # _ \<Rightarrow>
             (let sleep_time = oldest + time_period limiter - current_time
              in (Inr (if 0 < sleep_time then Some sleep_time else None),
                  limiter\<lparr>calls := q @ [current_time]\<rparr>)))
      else (Inr None, limiter\<lparr>calls := q @ [current_time]\<rparr>))"

text \<open>
  A run of acquisitions on a wall clock. Each element of the list is the time that
  passes between the end of the previous acquisition and the moment the next one
  reads the clock; \<open>time.sleep\<close> lets the given duration pass. The result is the
  time at which the last acquisition completes.
\<close>

fun acquisitions :: "real list \<Rightarrow> real \<Rightarrow> rate_limiter \<Rightarrow> (py_error + real) \<times> rate_limiter" where
  "acquisitions [] now limiter = (Inr now, limiter)"
| "acquisitions (gap # gaps) now limiter =
     (case acquire_at (now + gap) limiter of
        (Inl e, limiter') \<Rightarrow> (Inl e, limiter')
      | (Inr None, limiter') \<Rightarrow> acquisitions gaps (now + gap) limiter'
      | (Inr (Some sleep_time), limiter') \<Rightarrow> acquisitions gaps (now + gap + sleep_time) limiter')"

text \<open>\<open>acquire\<close> inside a process: it reads the clock and sleeps.\<close>

definition acquire ::
  "(nat \<Rightarrow> real) \<Rightarrow> rate_limiter \<Rightarrow> world \<Rightarrow> (py_error + unit) \<times> rate_limiter \<times> world" where
  "acquire clock limiter w =
     (let (current_time, w1) = time_time clock w
      in case acquire_at current_time limiter of
           (Inl e, limiter') \<Rightarrow> (Inl e, limiter', w1)
         | (Inr None, limiter') \<Rightarrow> (Inr (), limiter', w1)
         | (Inr (Some sleep_time), limiter') \<Rightarrow>
             (case sleep sleep_time w1 of
                Inl e \<Rightarrow> (Inl e, limiter\<lparr>calls := evict current_time (time_period limiter) (calls limiter)\<rparr>, w1)
              | Inr w2 \<Rightarrow> (Inr (), limiter', w2)))"

section \<open>Regular expressions and the section extractors\<close>

text \<open>
  \<open>\d\<close> in a \<open>str\<close> pattern matches a decimal digit; up to code point 255 these are
  \<open>0\<close> to \<open>9\<close>.
\<close>

definition isdigit :: "char \<Rightarrow> bool" where
  "isdigit c = (c \<in> set ''0123456789'')"

text \<open>A match of \<open>lit\d+\<close> at the start of \<open>s\<close>: the literal and the longest run of digits.\<close>

definition match_digits :: "string \<Rightarrow> string \<Rightarrow> string option" where
  "match_digits lit s =
     (if startswith s lit \<and> takeWhile isdigit (drop (length lit) s) \<noteq> []
      then Some (lit @ takeWhile isdigit (drop (length lit) s)) else None)"

text \<open>
  \<open>re.findall(r'hsa\d+', line)\<close>: the non-overlapping matches from the left; after a
  match the scan goes on behind it.
\<close>

fun findall_hsa :: "string \<Rightarrow> string list" where
  "findall_hsa [] = []"
| "findall_hsa (c # cs) =
     (case match_digits ''hsa'' (c # cs) of
        Some m \<Rightarrow> m # findall_hsa (drop (length m - 1) cs)
      | None \<Rightarrow> findall_hsa cs)"

text \<open>A match of \<open>hsa\d{5}\<close> at the start of \<open>s\<close>.\<close>

definition match_hsa5 :: "string \<Rightarrow> string option" where
  "match_hsa5 s =
     (if startswith s ''hsa'' \<and> 8 \<le> length s \<and> list_all isdigit (take 5 (drop 3 s))
      then Some (take 8 s) else None)"

text \<open>\<open>re.search(r'hsa\d{5}', s)\<close>: the leftmost match, \<open>match.group(0)\<close>.\<close>

fun search_hsa5 :: "string \<Rightarrow> string option" where
  "search_hsa5 [] = None"
| "search_hsa5 (c # cs) =
     (case match_hsa5 (c # cs) of Some m \<Rightarrow> Some m | None \<Rightarrow> search_hsa5 cs)"

text \<open>
  \<open>_extract_pathways_from_entry(entry_text)\<close> of getDrugPathways.py: the loop over
  the lines with its flag \<open>in_pathway_section\<close> and its list \<open>pathways\<close>.
\<close>

fun scan_entry :: "bool \<Rightarrow> string list \<Rightarrow> string list \<Rightarrow> string list" where
  "scan_entry in_pathway_section pathways [] = pathways"
| "scan_entry in_pathway_section pathways (line # lines) =
     (if startswith line ''PATHWAY'' then
        scan_entry True (pathways @ map (\<lambda>m. ''path:'' @ m) (findall_hsa line)) lines
      else if in_pathway_section \<and> startswith line ''  '' then
        scan_entry in_pathway_section
          (pathways @ map (\<lambda>m. ''path:'' @ m) (findall_hsa line)) lines
      else if \<not> startswith line ''  '' then
        scan_entry False pathways lines
      else scan_entry in_pathway_section pathways lines)"

definition extract_pathways_from_entry :: "string \<Rightarrow> string list" where
  "extract_pathways_from_entry entry_text = scan_entry False [] (split NL entry_text)"

section \<open>The drug worker\<close>

definition KEGG_BASE_URL :: string where
  "KEGG_BASE_URL = ''http://rest.kegg.jp''"

text \<open>
  \<open>kegg_api_request(self, endpoint)\<close> of getDrugPathways.py. The acquisition is
  outside the \<open>try\<close>, so an exception of the limiter leaves the function; an
  exception of \<open>requests.get\<close> is caught.
\<close>

definition kegg_api_request ::
  "(nat \<Rightarrow> string \<Rightarrow> outcome) \<Rightarrow> (nat \<Rightarrow> real) \<Rightarrow> string \<Rightarrow> rate_limiter \<Rightarrow> world
     \<Rightarrow> (py_error + string option) \<times> rate_limiter \<times> world" where
  "kegg_api_request net clock endpoint limiter w =
     (case acquire clock limiter w of
        (Inl e, limiter', w1) \<Rightarrow> (Inl e, limiter', w1)
      | (Inr _, limiter', w1) \<Rightarrow>
          (let url = KEGG_BASE_URL @ ''/'' @ endpoint;
               (got, w2) = http_get net url w1
           in case got of
                Responded response \<Rightarrow>
                  if status_code response = 200 then (Inr (Some (resp_text response)), limiter', w2)
                  else if status_code response = 404 then (Inr None, limiter', w2)
                  else (Inr None, limiter', print (KeggError (status_code response) url) w2)
              | Raised \<Rightarrow> (Inr None, limiter', print (KeggException url) w2)))"

text \<open>
  \<open>process_drug_batch(self, drug_batch)\<close>: the loop over the batch with its list
  \<open>pairs\<close>; \<open>known\<close> is \<open>self.pathway_ids\<close>. \<open>if drug_data\<close> holds for a non-empty
  text.
\<close>

fun drug_batch_loop ::
  "(nat \<Rightarrow> string \<Rightarrow> outcome) \<Rightarrow> (nat \<Rightarrow> real) \<Rightarrow> string list \<Rightarrow> (string \<times> string) list
     \<Rightarrow> string list \<Rightarrow> rate_limiter \<Rightarrow> world
     \<Rightarrow> (py_error + (string \<times> string) list) \<times> rate_limiter \<times> world" where
  "drug_batch_loop net clock known pairs [] limiter w = (Inr pairs, limiter, w)"
| "drug_batch_loop net clock known pairs (drug_id # drug_batch) limiter w =
     (case kegg_api_request net clock (''get/'' @ drug_id) limiter w of
        (Inl e, limiter', w') \<Rightarrow> (Inl e, limiter', w')
      | (Inr drug_data, limiter', w') \<Rightarrow>
          (case drug_data of
             None \<Rightarrow> drug_batch_loop net clock known pairs drug_batch limiter' w'
           | Some entry_text \<Rightarrow>
               if entry_text \<noteq> [] then
                 drug_batch_loop net clock known
                   (pairs @ map (\<lambda>pathway_id. (drug_id, pathway_id))
                              (filter (\<lambda>pathway_id. pathway_id \<in> set known)
                                 (extract_pathways_from_entry entry_text)))
                   drug_batch limiter' w'
               else drug_batch_loop net clock known pairs drug_batch limiter' w'))"

definition process_drug_batch ::
  "(nat \<Rightarrow> string \<Rightarrow> outcome) \<Rightarrow> (nat \<Rightarrow> real) \<Rightarrow> string list \<Rightarrow> string list \<Rightarrow> rate_limiter \<Rightarrow> world
     \<Rightarrow> (py_error + (string \<times> string) list) \<times> rate_limiter \<times> world" where
  "process_drug_batch net clock known drug_batch limiter w =
     drug_batch_loop net clock known [] drug_batch limiter w"

section \<open>The disease worker\<close>

text \<open>
  A Python \<open>set\<close> of strings is modelled as a list without duplicates, in the order
  of insertion. The order in which Python lists a set is not fixed: where the
  script turns the set into a list, the order is a parameter.
\<close>

definition set_add :: "string \<Rightarrow> string list \<Rightarrow> string list" where
  "set_add x xs = (if x \<in> set xs then xs else xs @ [x])"

text \<open>The truth value of a response object is \<open>response.ok\<close>: the status is not 4xx or 5xx.\<close>

definition ok :: "response \<Rightarrow> bool" where
  "ok r = (\<not> (400 \<le> status_code r \<and> status_code r < 600))"

text \<open>
  \<open>if response and response.text.strip()\<close> followed by
  \<open>response.text.strip().split('\n')\<close>: the lines, when the test holds.
\<close>

definition stripped_lines :: "response option \<Rightarrow> string list option" where
  "stripped_lines response =
     (case response of
        None \<Rightarrow> None
      | Some r \<Rightarrow> if ok r \<and> strip (resp_text r) \<noteq> [] then Some (split NL (strip (resp_text r)))
                  else None)"

text \<open>The loops over the lines of a link response (methods 1 and 3).\<close>

fun link_lines :: "string list \<Rightarrow> string list \<Rightarrow> string list" where
  "link_lines pathways [] = pathways"
| "link_lines pathways (line # lines) =
     (case split TAB line of
        [disease, pathway] \<Rightarrow> link_lines (set_add (remove_all ''path:'' pathway) pathways) lines
      | _ \<Rightarrow> link_lines pathways lines)"

text \<open>The loop over the lines of the disease entry (method 2).\<close>

definition add_match :: "string \<Rightarrow> string list \<Rightarrow> string list" where
  "add_match pathway_part pathways =
     (if pathway_part \<noteq> [] then
        (case search_hsa5 pathway_part of Some m \<Rightarrow> set_add m pathways | None \<Rightarrow> pathways)
      else pathways)"

fun scan_disease_entry :: "bool \<Rightarrow> string list \<Rightarrow> string list \<Rightarrow> string list" where
  "scan_disease_entry in_pathway_section pathways [] = pathways"
| "scan_disease_entry in_pathway_section pathways (line # lines) =
     (if startswith line ''PATHWAY'' then
        scan_disease_entry True (add_match (strip (remove_all ''PATHWAY'' line)) pathways) lines
      else if startswith line ''  '' \<and> in_pathway_section then
        scan_disease_entry in_pathway_section (add_match (strip line) pathways) lines
      else if \<not> startswith line ''  '' \<and> in_pathway_section then
        scan_disease_entry False pathways lines
      else scan_disease_entry in_pathway_section pathways lines)"

text \<open>
  Lines 66 to 91: the test of the entry response and the loop over the lines of
  its stripped text, adding to the set \<open>pathways\<close>.
\<close>

definition disease_entry_pathways :: "string list \<Rightarrow> response option \<Rightarrow> string list" where
  "disease_entry_pathways pathways response =
     (case stripped_lines response of
        Some lines \<Rightarrow> scan_disease_entry False pathways lines
      | None \<Rightarrow> pathways)"

text \<open>The loop over the genes of the disease (method 3), with its counter \<open>gene_count\<close>.\<close>

fun gene_lines ::
  "(nat \<Rightarrow> string \<Rightarrow> outcome) \<Rightarrow> (nat \<Rightarrow> real) \<Rightarrow> int \<Rightarrow> string list \<Rightarrow> string list \<Rightarrow> world
     \<Rightarrow> (py_error + string list) \<times> world" where
  "gene_lines net rnd gene_count pathways [] w = (Inr pathways, w)"
| "gene_lines net rnd gene_count pathways (line # lines) w =
     (case split TAB line of
        [disease, gene] \<Rightarrow>
          (case (if (gene_count + 1) mod 5 = 0 then sleep 1 w else Inr w) of
             Inl e \<Rightarrow> (Inl e, w)
           | Inr w1 \<Rightarrow>
               (case make_request_with_retry net rnd (''https://rest.kegg.jp/link/pathway/'' @ gene) 20 1 w1 of
                  (Inl e, w2) \<Rightarrow> (Inl e, w2)
                | (Inr gene_response, w2) \<Rightarrow>
                    gene_lines net rnd (gene_count + 1)
                      (case stripped_lines gene_response of
                         Some gene_response_lines \<Rightarrow> link_lines pathways gene_response_lines
                       | None \<Rightarrow> pathways)
                      lines w2))
      | _ \<Rightarrow> gene_lines net rnd gene_count pathways lines w)"

text \<open>
  \<open>get_disease_pathways(disease_id)\<close> of getDiseasePathways.py; the result is the
  pair \<open>(list(pathways), disease_id)\<close>. Python does not fix the order in which
  \<open>list\<close> lists a set: \<open>listing\<close> is that order, taking the set as held here to
  the list returned.
\<close>

definition get_disease_pathways ::
  "(nat \<Rightarrow> string \<Rightarrow> outcome) \<Rightarrow> (nat \<Rightarrow> real) \<Rightarrow> (string list \<Rightarrow> string list) \<Rightarrow> string \<Rightarrow> world
     \<Rightarrow> (py_error + string list \<times> string) \<times> world" where
  "get_disease_pathways net rnd listing disease_id w =
     (case make_request_with_retry net rnd (''https://rest.kegg.jp/link/pathway/'' @ disease_id) 20 1 w of
        (Inl e, w1) \<Rightarrow> (Inl e, w1)
      | (Inr response1, w1) \<Rightarrow>
          (let pathways1 = (case stripped_lines response1 of
                              Some lines \<Rightarrow> link_lines [] lines | None \<Rightarrow> [])
           in case make_request_with_retry net rnd (''https://rest.kegg.jp/get/'' @ disease_id) 20 1 w1 of
                (Inl e, w2) \<Rightarrow> (Inl e, w2)
              | (Inr response2, w2) \<Rightarrow>
                  (let pathways2 = disease_entry_pathways pathways1 response2
                   in case make_request_with_retry net rnd
                             (''https://rest.kegg.jp/link/hsa/'' @ disease_id) 20 1 w2 of
                        (Inl e, w3) \<Rightarrow> (Inl e, w3)
                      | (Inr response3, w3) \<Rightarrow>
                          (case stripped_lines response3 of
                             None \<Rightarrow> (Inr (listing pathways2, disease_id), w3)
                           | Some lines \<Rightarrow>
                               (case gene_lines net rnd 0 pathways2 lines w3 of
                                  (Inl e, w4) \<Rightarrow> (Inl e, w4)
                                | (Inr pathways3, w4) \<Rightarrow>
                                    (Inr (listing pathways3, disease_id), w4))))))"

text \<open>
  \<open>process_diseases_chunk(disease_ids, chunk_id)\<close>: the loop with its list
  \<open>results\<close>. The \<open>try\<close> block holds the call of the worker, the \<open>append\<close> and the
  sleep; the handler prints and appends the empty result. The call
  \<open>get_disease_pathways(disease_id)\<close> inside the \<open>try\<close> block is the parameter
  \<open>worker\<close>, so that what happens when the call raises can be stated for every
  exception; in the script the worker is \<open>get_disease_pathways net rnd listing\<close>.
\<close>

fun chunk_loop ::
  "(string \<Rightarrow> world \<Rightarrow> (py_error + string list \<times> string) \<times> world) \<Rightarrow> (nat \<Rightarrow> real) \<Rightarrow> int
     \<Rightarrow> (string \<times> string list) list \<Rightarrow> string list \<Rightarrow> world
     \<Rightarrow> (string \<times> string list) list \<times> world" where
  "chunk_loop worker rnd chunk_id results [] w = (results, w)"
| "chunk_loop worker rnd chunk_id results (disease_id # disease_ids) w =
     (case worker disease_id w of
        (Inl e, w1) \<Rightarrow>
          chunk_loop worker rnd chunk_id (results @ [(disease_id, [])]) disease_ids
            (print (ChunkError chunk_id disease_id e) w1)
      | (Inr (pathways, _), w1) \<Rightarrow>
          (let results1 = results @ [(disease_id, pathways)];
               (jitter, w2) = uniform rnd 0 (1 / 2) w1
           in case sleep (1 / 2 + jitter) w2 of
                Inl e \<Rightarrow>
                  chunk_loop worker rnd chunk_id (results1 @ [(disease_id, [])]) disease_ids
                    (print (ChunkError chunk_id disease_id e) w2)
              | Inr w3 \<Rightarrow> chunk_loop worker rnd chunk_id results1 disease_ids w3))"

definition process_diseases_chunk ::
  "(string \<Rightarrow> world \<Rightarrow> (py_error + string list \<times> string) \<times> world) \<Rightarrow> (nat \<Rightarrow> real)
     \<Rightarrow> string list \<Rightarrow> int \<Rightarrow> world \<Rightarrow> (string \<times> string list) list \<times> world" where
  "process_diseases_chunk worker rnd disease_ids chunk_id w =
     chunk_loop worker rnd chunk_id [] disease_ids w"

section \<open>The database sinks\<close>

text \<open>
  The relationship tables \<open>DrugPathways\<close> and \<open>DiseaseCompounds\<close> have an integer
  key \<open>id\<close> with AUTOINCREMENT, two text columns and \<open>UNIQUE\<close> over the two text
  columns. A table is the list of its rows with the key counter \<open>seq\<close> that SQLite
  keeps for it. SQLite is not part of the repository; \<open>INSERT OR IGNORE\<close> is
  modelled from its documentation and behaviour: the statement first takes the
  next key, one more than the largest of the counter and the keys in the table;
  a row that would violate the uniqueness constraint is then skipped, any other
  row is added under that key; the counter keeps the key taken in both cases, so
  a skipped row consumes a key. Foreign keys are not enforced, as the scripts
  never switch them on. A database in which the table does not exist is \<open>None\<close>.
\<close>

record table =
  rows :: "(int \<times> string \<times> string) list"
  seq :: int

definition empty_table :: table where
  "empty_table = \<lparr>rows = [], seq = 0\<rparr>"

definition next_key :: "table \<Rightarrow> int" where
  "next_key t = fold max (map fst (rows t)) (seq t) + 1"

definition insert_or_ignore :: "string \<times> string \<Rightarrow> table \<Rightarrow> table" where
  "insert_or_ignore pair t =
     (if pair \<in> set (map snd (rows t)) then t\<lparr>seq := next_key t\<rparr>
      else t\<lparr>rows := rows t @ [(next_key t, pair)], seq := next_key t\<rparr>)"

text \<open>\<open>executemany\<close> of the INSERT OR IGNORE statement over a list of pairs.\<close>

fun executemany :: "(string \<times> string) list \<Rightarrow> table \<Rightarrow> table" where
  "executemany [] t = t"
| "executemany (pair # pairs) t = executemany pairs (insert_or_ignore pair t)"

text \<open>
  The slices \<open>xs[i:i + batch_size]\<close> for \<open>i in range(0, len(xs), batch_size)\<close>, for a
  positive \<open>batch_size\<close>.
\<close>

definition batches :: "nat \<Rightarrow> 'a list \<Rightarrow> 'a list list" where
  "batches batch_size xs =
     map (\<lambda>k. take batch_size (drop (k * batch_size) xs))
       [0..<(length xs + batch_size - 1) div batch_size]"

text \<open>The loop over the batches; each is inserted and committed.\<close>

fun insert_batches :: "(string \<times> string) list list \<Rightarrow> table \<Rightarrow> table" where
  "insert_batches [] t = t"
| "insert_batches (batch # rest) t = insert_batches rest (executemany batch t)"

text \<open>
  \<open>save_results(self)\<close> of getDrugPathways.py; \<open>unique_pairs\<close> is
  \<open>list(self.drug_pathway_pairs)\<close>, the pairs of the set in some order. The result
  is the table \<open>DrugPathways\<close> afterwards.
\<close>

definition create_table_if_not_exists :: "table option \<Rightarrow> table" where
  "create_table_if_not_exists db = (case db of None \<Rightarrow> empty_table | Some t \<Rightarrow> t)"

definition save_results :: "(string \<times> string) list \<Rightarrow> table option \<Rightarrow> table" where
  "save_results unique_pairs db =
     insert_batches (batches 1000 unique_pairs) (create_table_if_not_exists db)"

text \<open>
  \<open>save_chunk(chunk, chunk_num)\<close> of getSMILESforDrugsAndCompounds.py: the insert
  fails when the table is missing; the function then rolls back and returns False.
\<close>

definition save_chunk :: "(string \<times> string) list \<Rightarrow> table option \<Rightarrow> bool \<times> table option" where
  "save_chunk chunk db =
     (case db of None \<Rightarrow> (False, None) | Some t \<Rightarrow> (True, Some (executemany chunk t)))"

text \<open>\<open>SELECT COUNT(*)\<close>.\<close>

definition row_count :: "table \<Rightarrow> nat" where
  "row_count t = length (rows t)"

text \<open>The uniqueness constraint: no two rows with the same pair.\<close>

definition unique_pairs_ok :: "table \<Rightarrow> bool" where
  "unique_pairs_ok t = distinct (map snd (rows t))"

section \<open>Notions for the statements and example inputs\<close>

definition two_pairs :: "(string \<times> string) list" where
  "two_pairs = [(''D00001'', ''path:hsa04910''), (''D00002'', ''path:hsa04930'')]"

text \<open>
  What \<open>list\<close> does to a set: the list has the elements of the set, each once.
\<close>

definition lists_the_set :: "(string list \<Rightarrow> string list) \<Rightarrow> bool" where
  "lists_the_set listing = (\<forall>xs. set (listing xs) = set xs \<and> length (listing xs) = length xs)"

definition insertion_order :: "string list \<Rightarrow> string list" where
  "insertion_order xs = xs"

definition reverse_order :: "string list \<Rightarrow> string list" where
  "reverse_order xs = rev xs"

text \<open>The contract of \<open>random.random()\<close>: every value lies in \<open>[0, 1)\<close>.\<close>

definition unit_samples :: "(nat \<Rightarrow> real) \<Rightarrow> bool" where
  "unit_samples rnd = (\<forall>n. 0 \<le> rnd n \<and> rnd n < 1)"

text \<open>
  The jitter of the SMILES helper, \<open>random.uniform(0.1, 1.0)\<close>, as a function of the
  value of \<open>random.random()\<close>.
\<close>

definition smiles_jitter :: "real \<Rightarrow> real" where
  "smiles_jitter u = 1 / 10 + (1 - 1 / 10) * u"

text \<open>Servers and a random source for the examples.\<close>

definition flaky_server :: "nat \<Rightarrow> string \<Rightarrow> outcome" where
  "flaky_server n url =
     (if n = 0 then Raised
      else if n = 1 then Responded \<lparr>status_code = 500, resp_text = []\<rparr>
      else Responded \<lparr>status_code = 200, resp_text = ''data''\<rparr>)"

definition down_server :: "nat \<Rightarrow> string \<Rightarrow> outcome" where
  "down_server n url = Responded \<lparr>status_code = 503, resp_text = []\<rparr>"

definition blank_server :: "nat \<Rightarrow> string \<Rightarrow> outcome" where
  "blank_server n url = Responded \<lparr>status_code = 200, resp_text = [NL]\<rparr>"

definition half_samples :: "nat \<Rightarrow> real" where
  "half_samples n = 1 / 2"

text \<open>
  A record whose PATHWAY section has three continuation lines and is closed by a
  line that itself begins with the keyword.
\<close>

definition reopened_record :: string where
  "reopened_record =
     ''PATHWAY     hsa04910'' @ [NL] @
     ''            hsa04930'' @ [NL] @
     ''            hsa04931'' @ [NL] @
     ''            hsa04932'' @ [NL] @
     ''PATHWAY_MAP hsa04950''"

text \<open>A record with a single PATHWAY section of three continuation lines.\<close>

definition gene_record :: string where
  "gene_record =
     ''ENTRY       3643'' @ [NL] @
     ''PATHWAY     hsa04910  Insulin'' @ [NL] @
     ''            hsa04930  hsa04931'' @ [NL] @
     ''            none'' @ [NL] @
     ''            hsa04932'' @ [NL] @
     ''DISEASE     H00408 hsa00001'' @ [NL] @
     ''  hsa00002''"

text \<open>
  A response whose text is that record between blank lines, as the disease script
  receives it.
\<close>

definition padded_response :: response where
  "padded_response =
     \<lparr>status_code = 200, resp_text = [NL] @ gene_record @ [NL] @ [NL]\<rparr>"

text \<open>
  What one drug of a batch contributes, as a function of the outcome of its one
  request: the pairs and the printed lines.
\<close>

definition drug_url :: "string \<Rightarrow> string" where
  "drug_url drug_id = KEGG_BASE_URL @ ''/'' @ (''get/'' @ drug_id)"

definition drug_pairs :: "string list \<Rightarrow> string \<Rightarrow> outcome \<Rightarrow> (string \<times> string) list" where
  "drug_pairs known drug_id got =
     (case got of
        Raised \<Rightarrow> []
      | Responded r \<Rightarrow>
          if status_code r = 200 \<and> resp_text r \<noteq> [] then
            map (\<lambda>pathway_id. (drug_id, pathway_id))
              (filter (\<lambda>pathway_id. pathway_id \<in> set known)
                 (extract_pathways_from_entry (resp_text r)))
          else [])"

definition drug_events :: "string \<Rightarrow> outcome \<Rightarrow> event list" where
  "drug_events drug_id got =
     (case got of
        Raised \<Rightarrow> [KeggException (drug_url drug_id)]
      | Responded r \<Rightarrow>
          if status_code r = 200 \<or> status_code r = 404 then []
          else [KeggError (status_code r) (drug_url drug_id)])"

definition still_clock :: "nat \<Rightarrow> real" where
  "still_clock n = 0"





text \<open>A worker that raises for one disease, and servers that fail once.\<close>

definition failing_worker :: "string \<Rightarrow> world \<Rightarrow> (py_error + string list \<times> string) \<times> world" where
  "failing_worker disease_id w =
     (if disease_id = ''H00002'' then (Inl (WorkerError ''boom''), w)
      else (Inr ([''hsa04910''], disease_id), w))"





definition middle_raises_server :: "nat \<Rightarrow> string \<Rightarrow> outcome" where
  "middle_raises_server n url =
     (if n = 1 then Raised
      else Responded \<lparr>status_code = 200, resp_text = ''PATHWAY hsa04910''\<rparr>)"

text \<open>
  The end-to-end scenario: the pathway-link endpoint answers one line, the entry
  of the disease has a PATHWAY section naming hsa04930, and every other endpoint
  (the gene link and the pathways of genes) answers as \<open>others\<close> says.
\<close>

definition h00001_entry :: string where
  "h00001_entry =
     ''ENTRY       H00001                      Disease'' @ [NL] @
     ''NAME        B-cell acute lymphoblastic leukemia'' @ [NL] @
     ''PATHWAY     hsa04930  Type II diabetes mellitus'' @ [NL] @
     ''GENE        INS [HSA:3630]'' @ [NL] @
     ''///'' @ [NL]"

definition h00001_link :: string where
  "h00001_link = ''H00001'' @ [TAB] @ ''path:hsa04910''"

definition mock_kegg :: "(nat \<Rightarrow> outcome) \<Rightarrow> nat \<Rightarrow> string \<Rightarrow> outcome" where
  "mock_kegg others n url =
     (if url = ''https://rest.kegg.jp/link/pathway/H00001'' then
        Responded \<lparr>status_code = 200, resp_text = h00001_link\<rparr>
      else if url = ''https://rest.kegg.jp/get/H00001'' then
        Responded \<lparr>status_code = 200, resp_text = h00001_entry\<rparr>
      else others n)"

definition empty_answers :: "nat \<Rightarrow> outcome" where
  "empty_answers n = Responded \<lparr>status_code = 200, resp_text = []\<rparr>"

definition not_found_answers :: "nat \<Rightarrow> outcome" where
  "not_found_answers n = Responded \<lparr>status_code = 404, resp_text = []\<rparr>"

section \<open>Properties of the file sink\<close>

lemma write_pathways_eq:
  "write_pathways d ps k =
     k\<lparr>sql_file := sql_file k @ map (insert_sql d) ps,
       insert_count := insert_count k + int (length ps)\<rparr>"
  by (induction ps arbitrary: k) simp_all

lemma write_results_eq:
  "write_results rs k =
     k\<lparr>sql_file := sql_file k @ expected_inserts rs,
       insert_count := insert_count k + int (length (expected_inserts rs)),
       diseases_with_pathways :=
         diseases_with_pathways k + int (length (filter (\<lambda>r. snd r \<noteq> []) rs)),
       diseases_without_pathways :=
         diseases_without_pathways k + int (length (filter (\<lambda>r. snd r = []) rs))\<rparr>"
proof (induction rs arbitrary: k)
  case Nil
  show ?case by (simp add: expected_inserts_def)
next
  case (Cons r rs)
  obtain d ps where r: "r = (d, ps)" by (cases r)
  show ?case
    unfolding r
    by (simp add: Cons.IH write_pathways_eq expected_inserts_def)
qed

lemma length_expected_inserts:
  "length (expected_inserts rs) = sum_list (map (\<lambda>r. length (snd r)) rs)"
  by (induction rs) (auto simp: expected_inserts_def)

lemma filter_partition_length:
  "length (filter (\<lambda>r. snd r \<noteq> []) rs) + length (filter (\<lambda>r. snd r = []) rs) = length rs"
  by (induction rs) auto

lemma expected_inserts_text:
  "expected_inserts results =
     concat (map (\<lambda>(disease_id, pathways).
        map (\<lambda>pathway. ''INSERT INTO DiseasePathways (disease_id, pathway_id) VALUES (''
               @ [CHR 0x27] @ disease_id @ [CHR 0x27] @ '', '' @ [CHR 0x27] @ ''path:'' @ pathway
               @ [CHR 0x27] @ '');'' @ [NL]) pathways) results)"
proof -
  have "insert_sql disease_id =
      (\<lambda>pathway. ''INSERT INTO DiseasePathways (disease_id, pathway_id) VALUES (''
               @ [CHR 0x27] @ disease_id @ [CHR 0x27] @ '', '' @ [CHR 0x27] @ ''path:'' @ pathway
               @ [CHR 0x27] @ '');'' @ [NL])" for disease_id
    by (rule ext) (simp add: insert_sql_def)
  then show ?thesis
    by (simp add: expected_inserts_def)
qed

text \<open>
  Claim C6. For every result list, the written script is the transaction begin, the
  blanket DELETE (and a comment line), then for each result in order and each of
  its pathways in order exactly one statement
  \<open>INSERT INTO DiseasePathways (disease_id, pathway_id) VALUES ('d', 'path:p');\<close>
  (a result with an empty pathway list contributes none), and the commit; the
  returned counters are the number of INSERT statements, the number of results
  with a non-empty pathway list and the number with an empty one, and the last
  two add up to the number of results.
\<close>

theorem write_sql_file_script:
  "sql_file (write_sql_file results) =
     [''BEGIN TRANSACTION;'' @ [NL, NL], ''DELETE FROM DiseasePathways;'' @ [NL],
      ''-- Inserting disease-pathway relationships'' @ [NL, NL]]
     @ concat (map (\<lambda>(disease_id, pathways).
         map (\<lambda>pathway. ''INSERT INTO DiseasePathways (disease_id, pathway_id) VALUES (''
                @ [CHR 0x27] @ disease_id @ [CHR 0x27] @ '', '' @ [CHR 0x27] @ ''path:'' @ pathway
                @ [CHR 0x27] @ '');'' @ [NL]) pathways) results)
     @ [[NL] @ ''COMMIT;'' @ [NL]]
   \<and> length (sql_file (write_sql_file results)) =
       3 + sum_list (map (\<lambda>r. length (snd r)) results) + 1
   \<and> insert_count (write_sql_file results) = int (sum_list (map (\<lambda>r. length (snd r)) results))
   \<and> diseases_with_pathways (write_sql_file results) =
       int (length (filter (\<lambda>r. snd r \<noteq> []) results))
   \<and> diseases_without_pathways (write_sql_file results) =
       int (length (filter (\<lambda>r. snd r = []) results))
   \<and> diseases_with_pathways (write_sql_file results)
       + diseases_without_pathways (write_sql_file results) = int (length results)"
proof -
  have "int (length (filter (\<lambda>r. snd r \<noteq> []) results))
        + int (length (filter (\<lambda>r. snd r = []) results)) = int (length results)"
    using filter_partition_length [of results] by linarith
  moreover have "sql_file (write_sql_file results) =
      sql_header @ expected_inserts results @ sql_footer"
    by (simp add: write_sql_file_def write_results_eq Let_def)
  moreover have "insert_count (write_sql_file results) = int (length (expected_inserts results))"
    "diseases_with_pathways (write_sql_file results) =
       int (length (filter (\<lambda>r. snd r \<noteq> []) results))"
    "diseases_without_pathways (write_sql_file results) =
       int (length (filter (\<lambda>r. snd r = []) results))"
    by (simp_all add: write_sql_file_def write_results_eq Let_def)
  moreover note length_expected_inserts [of results]
  ultimately show ?thesis
    by (simp add: sql_header_def sql_footer_def expected_inserts_text)
qed

theorem write_sql_file_script_witness:
  "sql_file (write_sql_file [(''H00001'', [''hsa04910'', ''hsa04930'']), (''H00002'', [])]) =
     [''BEGIN TRANSACTION;'' @ [CHR 0x0A, CHR 0x0A], ''DELETE FROM DiseasePathways;'' @ [CHR 0x0A],
      ''-- Inserting disease-pathway relationships'' @ [CHR 0x0A, CHR 0x0A],
      ''INSERT INTO DiseasePathways (disease_id, pathway_id) VALUES ('' @ [CHR 0x27]
        @ ''H00001'' @ [CHR 0x27] @ '', '' @ [CHR 0x27] @ ''path:hsa04910'' @ [CHR 0x27]
        @ '');'' @ [CHR 0x0A],
      ''INSERT INTO DiseasePathways (disease_id, pathway_id) VALUES ('' @ [CHR 0x27]
        @ ''H00001'' @ [CHR 0x27] @ '', '' @ [CHR 0x27] @ ''path:hsa04930'' @ [CHR 0x27]
        @ '');'' @ [CHR 0x0A],
      [CHR 0x0A] @ ''COMMIT;'' @ [CHR 0x0A]]
   \<and> insert_count (write_sql_file [(''H00001'', [''hsa04910'', ''hsa04930'']), (''H00002'', [])]) = 2
   \<and> diseases_with_pathways
       (write_sql_file [(''H00001'', [''hsa04910'', ''hsa04930'']), (''H00002'', [])]) = 1
   \<and> diseases_without_pathways
       (write_sql_file [(''H00001'', [''hsa04910'', ''hsa04930'']), (''H00002'', [])]) = 1"
  using write_sql_file_script
    [of "[(''H00001'', [''hsa04910'', ''hsa04930'']), (''H00002'', [])]"]
  by (simp add: NL_def)

section \<open>Properties of the database sinks\<close>

lemma pairs_insert_or_ignore:
  "snd ` set (rows (insert_or_ignore pair t)) = insert pair (snd ` set (rows t))"
  by (auto simp: insert_or_ignore_def)

lemma pairs_executemany:
  "snd ` set (rows (executemany pairs t)) = set pairs \<union> snd ` set (rows t)"
  by (induction pairs arbitrary: t) (simp_all add: pairs_insert_or_ignore)

lemma executemany_present:
  "set pairs \<subseteq> snd ` set (rows t) \<Longrightarrow> rows (executemany pairs t) = rows t"
  by (induction pairs arbitrary: t) (auto simp: insert_or_ignore_def)

lemma executemany_append:
  "executemany (xs @ ys) t = executemany ys (executemany xs t)"
  by (induction xs arbitrary: t) auto

lemma insert_batches_concat:
  "insert_batches bs t = executemany (concat bs) t"
  by (induction bs arbitrary: t) (auto simp: executemany_append)

lemma concat_slices:
  "0 < n \<Longrightarrow> concat (map (\<lambda>k. take n (drop (k * n) xs)) [0..<m]) = take (m * n) xs"
proof (induction m)
  case 0
  show ?case by simp
next
  case (Suc m)
  have "take (m * n) xs @ take n (drop (m * n) xs) = take (m * n + n) xs"
    by (simp add: take_add)
  with Suc show ?case by (simp add: add.commute)
qed

lemma concat_batches: "0 < n \<Longrightarrow> concat (batches n xs) = xs"
proof -
  assume n: "0 < n"
  have "length xs \<le> ((length xs + n - 1) div n) * n"
  proof -
    have "(length xs + n - 1) mod n < n" using n by simp
    moreover have "((length xs + n - 1) div n) * n + (length xs + n - 1) mod n = length xs + n - 1"
      by simp
    ultimately show ?thesis by linarith
  qed
  then show ?thesis
    using n by (simp add: batches_def concat_slices)
qed

lemma save_results_eq:
  "save_results ps db = executemany ps (create_table_if_not_exists db)"
  by (simp add: save_results_def insert_batches_concat concat_batches)

lemma unique_insert_or_ignore:
  "unique_pairs_ok t \<Longrightarrow> unique_pairs_ok (insert_or_ignore pair t)"
  by (auto simp: insert_or_ignore_def unique_pairs_ok_def)

lemma unique_executemany:
  "unique_pairs_ok t \<Longrightarrow> unique_pairs_ok (executemany pairs t)"
  by (induction pairs arbitrary: t) (auto simp: unique_insert_or_ignore)

text \<open>
  Claim C4. Running a database sink a second time with the same set of pairs (in
  any order, with any repetitions) leaves the relationship table with exactly the
  rows the first run left, so the row count is the same; and a table that
  satisfies the uniqueness constraint before a run satisfies it afterwards and
  then holds one row per pair: no duplicate pair is ever created. This holds for
  \<open>save_results\<close> (batches of 1000) and for \<open>save_chunk\<close>.
\<close>

theorem database_sink_idempotent:
  assumes "set pairs' = set pairs"
  shows "rows (save_results pairs' (Some (save_results pairs db))) = rows (save_results pairs db)
       \<and> row_count (save_results pairs' (Some (save_results pairs db)))
           = row_count (save_results pairs db)
       \<and> (unique_pairs_ok (create_table_if_not_exists db) \<longrightarrow>
            unique_pairs_ok (save_results pairs db)
            \<and> unique_pairs_ok (save_results pairs' (Some (save_results pairs db)))
            \<and> row_count (save_results pairs db) =
                card (set pairs \<union> snd ` set (rows (create_table_if_not_exists db))))
       \<and> (\<exists>t1 t2. save_chunk pairs (Some t) = (True, Some t1)
              \<and> save_chunk pairs' (Some t1) = (True, Some t2)
              \<and> rows t2 = rows t1 \<and> row_count t2 = row_count t1
              \<and> (unique_pairs_ok t \<longrightarrow>
                   unique_pairs_ok t1 \<and> unique_pairs_ok t2
                   \<and> row_count t1 = card (set pairs \<union> snd ` set (rows t))))
       \<and> save_chunk pairs None = (False, None)"
proof -
  have same: "rows (executemany pairs' (executemany pairs t)) = rows (executemany pairs t)" for t
    by (rule executemany_present) (simp add: pairs_executemany assms)
  have count: "row_count (executemany pairs t) = card (set pairs \<union> snd ` set (rows t))"
    if "unique_pairs_ok t" for t
  proof -
    have "unique_pairs_ok (executemany pairs t)" using that by (rule unique_executemany)
    then show ?thesis
      using distinct_card [of "map snd (rows (executemany pairs t))"]
      by (simp add: unique_pairs_ok_def row_count_def pairs_executemany)
  qed
  have 1: "rows (save_results pairs' (Some (save_results pairs db))) = rows (save_results pairs db)"
    by (simp add: save_results_eq create_table_if_not_exists_def same)
  then have 2: "row_count (save_results pairs' (Some (save_results pairs db)))
           = row_count (save_results pairs db)"
    by (simp add: row_count_def)
  have 3: "unique_pairs_ok (create_table_if_not_exists db) \<longrightarrow>
            unique_pairs_ok (save_results pairs db)
            \<and> unique_pairs_ok (save_results pairs' (Some (save_results pairs db)))
            \<and> row_count (save_results pairs db) =
                card (set pairs \<union> snd ` set (rows (create_table_if_not_exists db)))"
  proof
    assume u: "unique_pairs_ok (create_table_if_not_exists db)"
    have a: "unique_pairs_ok (save_results pairs db)"
      using u by (simp add: save_results_eq unique_executemany)
    then have "unique_pairs_ok (save_results pairs' (Some (save_results pairs db)))"
      using 1 by (simp add: unique_pairs_ok_def)
    with a show "unique_pairs_ok (save_results pairs db)
            \<and> unique_pairs_ok (save_results pairs' (Some (save_results pairs db)))
            \<and> row_count (save_results pairs db) =
                card (set pairs \<union> snd ` set (rows (create_table_if_not_exists db)))"
      using count [OF u] by (simp add: save_results_eq)
  qed
  have 4: "\<exists>t1 t2. save_chunk pairs (Some t) = (True, Some t1)
              \<and> save_chunk pairs' (Some t1) = (True, Some t2)
              \<and> rows t2 = rows t1 \<and> row_count t2 = row_count t1
              \<and> (unique_pairs_ok t \<longrightarrow>
                   unique_pairs_ok t1 \<and> unique_pairs_ok t2
                   \<and> row_count t1 = card (set pairs \<union> snd ` set (rows t)))"
  proof -
    have "unique_pairs_ok t \<longrightarrow>
            unique_pairs_ok (executemany pairs t)
            \<and> unique_pairs_ok (executemany pairs' (executemany pairs t))
            \<and> row_count (executemany pairs t) = card (set pairs \<union> snd ` set (rows t))"
      using count [of t] by (simp add: unique_executemany)
    then show ?thesis
      using same [of t] by (simp add: save_chunk_def row_count_def)
  qed
  have 5: "save_chunk pairs None = (False, None)"
    by (simp add: save_chunk_def)
  from 1 2 3 4 5 show ?thesis by blast
qed

theorem database_sink_idempotent_witness:
  "set (rev two_pairs) = set two_pairs
   \<and> unique_pairs_ok (create_table_if_not_exists None)
   \<and> unique_pairs_ok empty_table
   \<and> save_results two_pairs None =
       \<lparr>rows = [(1, ''D00001'', ''path:hsa04910''), (2, ''D00002'', ''path:hsa04930'')], seq = 2\<rparr>
   \<and> save_results (rev two_pairs) (Some (save_results two_pairs None)) =
       \<lparr>rows = [(1, ''D00001'', ''path:hsa04910''), (2, ''D00002'', ''path:hsa04930'')], seq = 4\<rparr>
   \<and> row_count (save_results two_pairs None) = 2
   \<and> row_count (save_results (rev two_pairs) (Some (save_results two_pairs None))) = 2
   \<and> unique_pairs_ok (save_results two_pairs None)
   \<and> (\<exists>t1 t2. save_chunk two_pairs (Some empty_table) = (True, Some t1)
          \<and> save_chunk (rev two_pairs) (Some t1) = (True, Some t2)
          \<and> row_count t1 = 2 \<and> row_count t2 = 2)"
proof -
  have s: "set (rev two_pairs) = set two_pairs" by simp
  have e: "save_results two_pairs None =
       \<lparr>rows = [(1, ''D00001'', ''path:hsa04910''), (2, ''D00002'', ''path:hsa04930'')], seq = 2\<rparr>"
    by (simp add: save_results_eq create_table_if_not_exists_def two_pairs_def empty_table_def
        insert_or_ignore_def next_key_def)
  have e2: "save_results (rev two_pairs) (Some (save_results two_pairs None)) =
       \<lparr>rows = [(1, ''D00001'', ''path:hsa04910''), (2, ''D00002'', ''path:hsa04930'')], seq = 4\<rparr>"
    unfolding e
    by (simp add: save_results_eq create_table_if_not_exists_def two_pairs_def
        insert_or_ignore_def next_key_def)
  have u: "unique_pairs_ok (create_table_if_not_exists None)" "unique_pairs_ok empty_table"
    by (simp_all add: create_table_if_not_exists_def empty_table_def unique_pairs_ok_def)
  have c: "card (set two_pairs \<union> snd ` set (rows empty_table)) = 2"
    "card (set two_pairs \<union> snd ` set (rows (create_table_if_not_exists None))) = 2"
    by (simp_all add: two_pairs_def empty_table_def create_table_if_not_exists_def)
  note t = database_sink_idempotent [OF s, of None empty_table]
  from t u c have "row_count (save_results two_pairs None) = 2"
    "row_count (save_results (rev two_pairs) (Some (save_results two_pairs None))) = 2"
    "unique_pairs_ok (save_results two_pairs None)"
    by simp_all
  moreover from t u c have "\<exists>t1 t2. save_chunk two_pairs (Some empty_table) = (True, Some t1)
          \<and> save_chunk (rev two_pairs) (Some t1) = (True, Some t2)
          \<and> row_count t1 = 2 \<and> row_count t2 = 2"
    by auto
  ultimately show ?thesis
    using s u e e2 by blast
qed

section \<open>Properties of the retry helpers\<close>

lemma disease_attempts_append:
  "disease_attempts net rnd url m d (xs @ ys) w =
     (case disease_attempts net rnd url m d xs w of
        (Inr None, w') \<Rightarrow> disease_attempts net rnd url m d ys w'
      | r \<Rightarrow> r)"
proof (induction xs arbitrary: w)
  case Nil
  show ?case by simp
next
  case (Cons a xs)
  show ?case
    by (simp add: Cons.IH Let_def split: prod.splits outcome.splits sum.splits option.splits)
qed

lemma disease_delay_nonneg: "0 \<le> d \<Longrightarrow> 0 \<le> j \<Longrightarrow> 0 \<le> disease_delay d j"
  by (simp add: disease_delay_def)

lemma disease_attempts_failed_step:
  assumes "failed (net (length (requested w)) url)" and "0 \<le> d" and "0 \<le> rnd (drawn w)"
  shows "\<exists>ev. disease_attempts net rnd url m d (a # rest) w =
           disease_attempts net rnd url m d rest
             (w\<lparr>requested := requested w @ [url],
                slept := slept w @ [disease_delay d (rnd (drawn w))],
                drawn := Suc (drawn w),
                logged := logged w @ [ev]\<rparr>)"
proof (cases "net (length (requested w)) url")
  case Raised
  then show ?thesis
    using assms disease_delay_nonneg [of d "rnd (drawn w)"]
    by (intro exI [of _ "ErrorFailed (int a + 1) m"])
      (cases w, simp add: http_get_def uniform_def sleep_def print_def Let_def)
next
  case (Responded r)
  then show ?thesis
    using assms disease_delay_nonneg [of d "rnd (drawn w)"]
    by (intro exI [of _ "StatusFailed (status_code r) (int a + 1) m"])
      (cases w, simp add: http_get_def uniform_def sleep_def print_def Let_def failed_def)
qed

lemma disease_attempts_success_step:
  assumes "net (length (requested w)) url = Responded r" and "status_code r = 200"
  shows "disease_attempts net rnd url m d (a # rest) w =
           (Inr (Some r), w\<lparr>requested := requested w @ [url]\<rparr>)"
  using assms by (simp add: http_get_def Let_def)

lemma delays_upt_Suc:
  "map (\<lambda>i. f (n + i)) [0..<Suc k] = f n # map (\<lambda>i. f (Suc n + i)) [0..<k]"
  by (simp add: upt_rec [of 0] map_Suc_upt [symmetric] del: upt_Suc)

lemma disease_attempts_all_failed:
  assumes "\<forall>i<length atts. failed (net (length (requested w) + i) url)"
    and "\<forall>n. 0 \<le> rnd n" and "0 \<le> d"
  shows "\<exists>w'. disease_attempts net rnd url m d atts w = (Inr None, w')
           \<and> requested w' = requested w @ replicate (length atts) url
           \<and> slept w' = slept w @ map (\<lambda>i. disease_delay d (rnd (drawn w + i))) [0..<length atts]
           \<and> drawn w' = drawn w + length atts
           \<and> clock_reads w' = clock_reads w"
  using assms(1)
proof (induction atts arbitrary: w)
  case Nil
  show ?case by simp
next
  case (Cons a atts)
  from Cons.prems have f0: "failed (net (length (requested w)) url)" by auto
  from disease_attempts_failed_step [of net w url d rnd m a atts] f0 assms(2,3)
  obtain ev where step: "disease_attempts net rnd url m d (a # atts) w =
           disease_attempts net rnd url m d atts
             (w\<lparr>requested := requested w @ [url],
                slept := slept w @ [disease_delay d (rnd (drawn w))],
                drawn := Suc (drawn w),
                logged := logged w @ [ev]\<rparr>)" by blast
  let ?w1 = "w\<lparr>requested := requested w @ [url],
                slept := slept w @ [disease_delay d (rnd (drawn w))],
                drawn := Suc (drawn w),
                logged := logged w @ [ev]\<rparr>"
  have "\<forall>i<length atts. failed (net (length (requested ?w1) + i) url)"
    using Cons.prems by auto
  from Cons.IH [OF this] obtain w' where
    w': "disease_attempts net rnd url m d atts ?w1 = (Inr None, w')"
      "requested w' = requested ?w1 @ replicate (length atts) url"
      "slept w' = slept ?w1 @ map (\<lambda>i. disease_delay d (rnd (drawn ?w1 + i))) [0..<length atts]"
      "drawn w' = drawn ?w1 + length atts"
      "clock_reads w' = clock_reads ?w1" by blast
  show ?case
    using step w' delays_upt_Suc [of "\<lambda>i. disease_delay d (rnd i)" "drawn w" "length atts"]
    by (simp add: replicate_append_same del: upt_Suc)
qed

lemma make_request_all_failed:
  assumes "\<forall>i<nat max_retries. failed (net (length (requested w) + i) url)"
    and "\<forall>n. 0 \<le> rnd n" and "0 \<le> d"
  shows "\<exists>w'. make_request_with_retry net rnd url max_retries d w = (Inr None, w')
           \<and> requested w' = requested w @ replicate (nat max_retries) url
           \<and> slept w' = slept w @ map (\<lambda>i. disease_delay d (rnd (drawn w + i))) [0..<nat max_retries]
           \<and> drawn w' = drawn w + nat max_retries
           \<and> clock_reads w' = clock_reads w"
proof -
  from disease_attempts_all_failed [of "[0..<nat max_retries]" net w url rnd d max_retries] assms
  obtain w' where
    w': "disease_attempts net rnd url max_retries d [0..<nat max_retries] w = (Inr None, w')"
      "requested w' = requested w @ replicate (nat max_retries) url"
      "slept w' = slept w @ map (\<lambda>i. disease_delay d (rnd (drawn w + i))) [0..<nat max_retries]"
      "drawn w' = drawn w + nat max_retries"
      "clock_reads w' = clock_reads w" by auto
  then show ?thesis
    by (simp add: make_request_with_retry_def print_def)
qed

lemma make_request_kth:
  assumes k: "1 \<le> k" "int k \<le> max_retries"
    and fails: "\<forall>i<k - 1. failed (net (length (requested w) + i) url)"
    and succ: "net (length (requested w) + (k - 1)) url = Responded r" "status_code r = 200"
    and rnd: "\<forall>n. 0 \<le> rnd n" and d: "0 \<le> d"
  shows "\<exists>w'. make_request_with_retry net rnd url max_retries d w = (Inr (Some r), w')
           \<and> requested w' = requested w @ replicate k url
           \<and> slept w' = slept w @ map (\<lambda>i. disease_delay d (rnd (drawn w + i))) [0..<k - 1]"
proof -
  have split: "[0..<nat max_retries] = [0..<k - 1] @ (k - 1) # [k..<nat max_retries]"
  proof -
    have "k - 1 < nat max_retries" using k by linarith
    then have "[0..<nat max_retries] = [0..<k - 1] @ [k - 1..<nat max_retries]"
      using upt_add_eq_append [of 0 "k - 1" "nat max_retries - (k - 1)"] by simp
    moreover have "[k - 1..<nat max_retries] = (k - 1) # [k..<nat max_retries]"
      using \<open>k - 1 < nat max_retries\<close> k(1) upt_rec [of "k - 1" "nat max_retries"] by simp
    ultimately show ?thesis by simp
  qed
  from disease_attempts_all_failed [of "[0..<k - 1]" net w url rnd d max_retries] fails rnd d
  obtain w1 where
    w1: "disease_attempts net rnd url max_retries d [0..<k - 1] w = (Inr None, w1)"
      "requested w1 = requested w @ replicate (k - 1) url"
      "slept w1 = slept w @ map (\<lambda>i. disease_delay d (rnd (drawn w + i))) [0..<k - 1]"
    by auto
  have "net (length (requested w1)) url = Responded r"
    using succ(1) w1(2) by simp
  with succ(2)
  have "disease_attempts net rnd url max_retries d ((k - 1) # [k..<nat max_retries]) w1 =
          (Inr (Some r), w1\<lparr>requested := requested w1 @ [url]\<rparr>)"
    by (rule disease_attempts_success_step [rotated])
  moreover have "replicate (k - 1) url @ [url] = replicate k url"
    using k(1) by (cases k) (simp_all add: replicate_append_same)
  ultimately show ?thesis
    using w1 by (simp add: make_request_with_retry_def split disease_attempts_append)
qed

lemma smiles_attempts_append:
  "smiles_attempts net rnd url p (xs @ ys) w =
     (case smiles_attempts net rnd url p xs w of
        (Inr None, w') \<Rightarrow> smiles_attempts net rnd url p ys w'
      | r \<Rightarrow> r)"
proof (induction xs arbitrary: w)
  case Nil
  show ?case by simp
next
  case (Cons a xs)
  show ?case
    by (simp add: Cons.IH Let_def split: prod.splits outcome.splits sum.splits option.splits)
qed

lemma smiles_attempts_rejected_step:
  assumes "rejected (net (length (requested w)) url)" and "0 \<le> p" and "0 \<le> rnd (drawn w)"
  shows "\<exists>ev. smiles_attempts net rnd url p (a # rest) w =
           smiles_attempts net rnd url p rest
             (w\<lparr>requested := requested w @ [url],
                slept := slept w @ [smiles_delay p (smiles_jitter (rnd (drawn w)))],
                drawn := Suc (drawn w),
                logged := logged w @ [ev]\<rparr>)"
proof (cases "net (length (requested w)) url")
  case Raised
  then show ?thesis
    using assms
    by (intro exI [of _ "AttemptError (int a) url"])
      (cases w, simp add: http_get_def uniform_def sleep_def print_def Let_def
         smiles_delay_def smiles_jitter_def)
next
  case (Responded r)
  then show ?thesis
    using assms
    by (intro exI [of _ "AttemptStatus (int a) url (status_code r)"])
      (cases w, auto simp add: http_get_def uniform_def sleep_def print_def Let_def rejected_def
         smiles_delay_def smiles_jitter_def)
qed

lemma smiles_attempts_success_step:
  assumes "net (length (requested w)) url = Responded r" and "status_code r = 200"
    and "strip (resp_text r) \<noteq> []"
  shows "smiles_attempts net rnd url p (a # rest) w =
           (Inr (Some r), print (Success (int a) url 200) (w\<lparr>requested := requested w @ [url]\<rparr>))"
  using assms by (simp add: http_get_def Let_def)

lemma smiles_attempts_all_rejected:
  assumes "\<forall>i<length atts. rejected (net (length (requested w) + i) url)"
    and "\<forall>n. 0 \<le> rnd n" and "0 \<le> p"
  shows "\<exists>w'. smiles_attempts net rnd url p atts w = (Inr None, w')
           \<and> requested w' = requested w @ replicate (length atts) url
           \<and> slept w' = slept w
                @ map (\<lambda>i. smiles_delay p (smiles_jitter (rnd (drawn w + i)))) [0..<length atts]
           \<and> drawn w' = drawn w + length atts"
  using assms(1)
proof (induction atts arbitrary: w)
  case Nil
  show ?case by simp
next
  case (Cons a atts)
  from Cons.prems have f0: "rejected (net (length (requested w)) url)" by auto
  from smiles_attempts_rejected_step [of net w url p rnd a atts] f0 assms(2,3)
  obtain ev where step: "smiles_attempts net rnd url p (a # atts) w =
           smiles_attempts net rnd url p atts
             (w\<lparr>requested := requested w @ [url],
                slept := slept w @ [smiles_delay p (smiles_jitter (rnd (drawn w)))],
                drawn := Suc (drawn w),
                logged := logged w @ [ev]\<rparr>)" by blast
  let ?w1 = "w\<lparr>requested := requested w @ [url],
                slept := slept w @ [smiles_delay p (smiles_jitter (rnd (drawn w)))],
                drawn := Suc (drawn w),
                logged := logged w @ [ev]\<rparr>"
  have "\<forall>i<length atts. rejected (net (length (requested ?w1) + i) url)"
    using Cons.prems by auto
  from Cons.IH [OF this] obtain w' where
    w': "smiles_attempts net rnd url p atts ?w1 = (Inr None, w')"
      "requested w' = requested ?w1 @ replicate (length atts) url"
      "slept w' = slept ?w1
         @ map (\<lambda>i. smiles_delay p (smiles_jitter (rnd (drawn ?w1 + i)))) [0..<length atts]"
      "drawn w' = drawn ?w1 + length atts" by blast
  show ?case
    using step w'
      delays_upt_Suc [of "\<lambda>i. smiles_delay p (smiles_jitter (rnd i))" "drawn w" "length atts"]
    by (simp add: replicate_append_same del: upt_Suc)
qed

lemma length_smiles_range: "length [1..<nat (max_retries + 1)] = nat max_retries"
  by simp

lemma request_all_rejected:
  assumes "\<forall>i<nat max_retries. rejected (net (length (requested w) + i) url)"
    and "\<forall>n. 0 \<le> rnd n" and "0 \<le> p"
  shows "\<exists>w'. request_with_retry net rnd url max_retries p w = (Inr None, w')
           \<and> requested w' = requested w @ replicate (nat max_retries) url
           \<and> slept w' = slept w
                @ map (\<lambda>i. smiles_delay p (smiles_jitter (rnd (drawn w + i)))) [0..<nat max_retries]
           \<and> drawn w' = drawn w + nat max_retries"
proof -
  from smiles_attempts_all_rejected [of "[1..<nat (max_retries + 1)]" net w url rnd p] assms
  obtain w' where
    w': "smiles_attempts net rnd url p [1..<nat (max_retries + 1)] w = (Inr None, w')"
      "requested w' = requested w @ replicate (nat max_retries) url"
      "slept w' = slept w
         @ map (\<lambda>i. smiles_delay p (smiles_jitter (rnd (drawn w + i)))) [0..<nat max_retries]"
      "drawn w' = drawn w + nat max_retries"
    unfolding length_smiles_range by auto
  then show ?thesis
    by (simp add: request_with_retry_def print_def)
qed

lemma request_kth:
  assumes k: "1 \<le> k" "int k \<le> max_retries"
    and fails: "\<forall>i<k - 1. rejected (net (length (requested w) + i) url)"
    and succ: "net (length (requested w) + (k - 1)) url = Responded r" "status_code r = 200"
      "strip (resp_text r) \<noteq> []"
    and rnd: "\<forall>n. 0 \<le> rnd n" and p: "0 \<le> p"
  shows "\<exists>w'. request_with_retry net rnd url max_retries p w = (Inr (Some r), w')
           \<and> requested w' = requested w @ replicate k url"
proof -
  have split: "[1..<nat (max_retries + 1)] = [1..<k] @ k # [Suc k..<nat (max_retries + 1)]"
  proof -
    have lt: "k < nat (max_retries + 1)" using k by linarith
    then have "[1..<nat (max_retries + 1)] = [1..<k] @ [k..<nat (max_retries + 1)]"
      using upt_add_eq_append [of 1 k "nat (max_retries + 1) - k"] k(1) by simp
    moreover have "[k..<nat (max_retries + 1)] = k # [Suc k..<nat (max_retries + 1)]"
      using lt upt_rec [of k "nat (max_retries + 1)"] by simp
    ultimately show ?thesis by simp
  qed
  have len: "length [Suc 0..<k] = k - 1" by simp
  from smiles_attempts_all_rejected [of "[Suc 0..<k]" net w url rnd p] fails rnd p
  obtain w1 where
    w1: "smiles_attempts net rnd url p [Suc 0..<k] w = (Inr None, w1)"
      "requested w1 = requested w @ replicate (k - 1) url"
    unfolding len by auto
  have "net (length (requested w1)) url = Responded r"
    using succ(1) w1(2) by simp
  then have step: "smiles_attempts net rnd url p (k # [Suc k..<nat (max_retries + 1)]) w1 =
          (Inr (Some r), print (Success (int k) url 200) (w1\<lparr>requested := requested w1 @ [url]\<rparr>))"
    using succ(2,3) by (rule smiles_attempts_success_step)
  have "smiles_attempts net rnd url p ([1..<k] @ k # [Suc k..<nat (max_retries + 1)]) w =
          smiles_attempts net rnd url p (k # [Suc k..<nat (max_retries + 1)]) w1"
    by (simp add: smiles_attempts_append w1(1) del: smiles_attempts.simps)
  then have whole: "smiles_attempts net rnd url p [1..<nat (max_retries + 1)] w =
          (Inr (Some r), print (Success (int k) url 200) (w1\<lparr>requested := requested w1 @ [url]\<rparr>))"
    unfolding split [symmetric] step .
  have "replicate (k - 1) url @ [url] = replicate k url"
    using k(1) by (cases k) (simp_all add: replicate_append_same)
  then show ?thesis
    unfolding request_with_retry_def whole using w1(2) by (simp add: print_def)
qed

lemma smiles_attempts_accepts:
  "smiles_attempts net rnd url p atts w = (Inr (Some r), w') \<Longrightarrow>
     status_code r = 200 \<and> strip (resp_text r) \<noteq> []"
proof (induction atts arbitrary: w)
  case Nil
  then show ?case by simp
next
  case (Cons a atts)
  then show ?case
    by (auto simp: Let_def split: prod.splits outcome.splits sum.splits if_splits)
qed

lemma request_accepts:
  "request_with_retry net rnd url max_retries p w = (Inr (Some r), w') \<Longrightarrow>
     status_code r = 200 \<and> strip (resp_text r) \<noteq> []"
  using smiles_attempts_accepts [of net rnd url p "[1..<nat (max_retries + 1)]" w r]
  by (auto simp: request_with_retry_def split: prod.splits sum.splits option.splits)

text \<open>
  Claim C1, as stated, fails for the SMILES helper: an answer with status 200 and a
  blank body on attempt 1 (of at most 1) is not returned; the helper returns None.
\<close>

theorem retry_returns_200_counterexample:
  "blank_server 0 ''u'' = Responded \<lparr>status_code = 200, resp_text = [NL]\<rparr>
   \<and> fst (request_with_retry blank_server half_samples ''u'' 1 1 world0) = Inr None"
proof -
  have "[1..<nat (1 + 1)] = [Suc 0]"
    by (simp add: upt_rec)
  then show ?thesis
    unfolding request_with_retry_def
    by (simp add: blank_server_def half_samples_def world0_def
        http_get_def uniform_def sleep_def print_def smiles_delay_def strip_def lstrip_def
        rstrip_def isspace_def NL_def Let_def)
qed

text \<open>
  Claim C1, amended. With a non-negative base delay and random values in \<open>[0, 1)\<close>,
  for every URL and every \<open>k\<close> with \<open>1 \<le> k \<le> max_retries\<close>: if the first \<open>k - 1\<close>
  attempts fail (an exception or a status other than 200) and attempt \<open>k\<close> answers
  200, \<open>make_request_with_retry\<close> returns the response of attempt \<open>k\<close> after
  exactly \<open>k\<close> requests; \<open>request_with_retry\<close> does the same when the body of
  attempt \<open>k\<close> is moreover not blank, a blank body counting as a failed attempt
  for it. If all of the first \<open>max_retries\<close> attempts fail, either helper issues
  exactly \<open>max_retries\<close> requests and returns None.
\<close>

theorem retry_returns_first_success:
  assumes "unit_samples rnd" and "0 \<le> d"
  shows "(1 \<le> k \<and> int k \<le> max_retries
           \<and> (\<forall>i<k - 1. failed (net (length (requested w) + i) url))
           \<and> net (length (requested w) + (k - 1)) url = Responded r \<and> status_code r = 200
          \<longrightarrow> (\<exists>w'. make_request_with_retry net rnd url max_retries d w = (Inr (Some r), w')
                  \<and> requested w' = requested w @ replicate k url))
       \<and> (1 \<le> k \<and> int k \<le> max_retries
           \<and> (\<forall>i<k - 1. rejected (net (length (requested w) + i) url))
           \<and> net (length (requested w) + (k - 1)) url = Responded r \<and> status_code r = 200
           \<and> strip (resp_text r) \<noteq> []
          \<longrightarrow> (\<exists>w'. request_with_retry net rnd url max_retries d w = (Inr (Some r), w')
                  \<and> requested w' = requested w @ replicate k url))
       \<and> ((\<forall>i<nat max_retries. failed (net (length (requested w) + i) url))
          \<longrightarrow> (\<exists>w'. make_request_with_retry net rnd url max_retries d w = (Inr None, w')
                  \<and> requested w' = requested w @ replicate (nat max_retries) url)
             \<and> (\<exists>w'. request_with_retry net rnd url max_retries d w = (Inr None, w')
                  \<and> requested w' = requested w @ replicate (nat max_retries) url))"
proof -
  have rnd: "\<forall>n. 0 \<le> rnd n" using assms(1) by (simp add: unit_samples_def)
  have rej: "failed got \<Longrightarrow> rejected got" for got
    by (cases got) (simp_all add: failed_def rejected_def)
  have 1: "1 \<le> k \<and> int k \<le> max_retries
           \<and> (\<forall>i<k - 1. failed (net (length (requested w) + i) url))
           \<and> net (length (requested w) + (k - 1)) url = Responded r \<and> status_code r = 200
          \<longrightarrow> (\<exists>w'. make_request_with_retry net rnd url max_retries d w = (Inr (Some r), w')
                  \<and> requested w' = requested w @ replicate k url)"
    using make_request_kth [of k max_retries net w url r rnd d] rnd assms(2) by blast
  have 2: "1 \<le> k \<and> int k \<le> max_retries
           \<and> (\<forall>i<k - 1. rejected (net (length (requested w) + i) url))
           \<and> net (length (requested w) + (k - 1)) url = Responded r \<and> status_code r = 200
           \<and> strip (resp_text r) \<noteq> []
          \<longrightarrow> (\<exists>w'. request_with_retry net rnd url max_retries d w = (Inr (Some r), w')
                  \<and> requested w' = requested w @ replicate k url)"
    using request_kth [of k max_retries net w url r rnd d] rnd assms(2) by blast
  have 3: "(\<forall>i<nat max_retries. failed (net (length (requested w) + i) url))
          \<longrightarrow> (\<exists>w'. make_request_with_retry net rnd url max_retries d w = (Inr None, w')
                  \<and> requested w' = requested w @ replicate (nat max_retries) url)"
    using make_request_all_failed [of max_retries net w url rnd d] rnd assms(2) by blast
  have 4: "(\<forall>i<nat max_retries. failed (net (length (requested w) + i) url))
          \<longrightarrow> (\<exists>w'. request_with_retry net rnd url max_retries d w = (Inr None, w')
                  \<and> requested w' = requested w @ replicate (nat max_retries) url)"
    using request_all_rejected [of max_retries net w url rnd d] rnd assms(2) rej by blast
  from 1 2 3 4 show ?thesis by blast
qed

theorem retry_returns_first_success_witness:
  "unit_samples half_samples
   \<and> failed (flaky_server 0 ''u'') \<and> failed (flaky_server 1 ''u'')
   \<and> rejected (flaky_server 0 ''u'') \<and> rejected (flaky_server 1 ''u'')
   \<and> flaky_server 2 ''u'' = Responded \<lparr>status_code = 200, resp_text = ''data''\<rparr>
   \<and> fst (make_request_with_retry flaky_server half_samples ''u'' 20 1 world0)
       = Inr (Some \<lparr>status_code = 200, resp_text = ''data''\<rparr>)
   \<and> requested (snd (make_request_with_retry flaky_server half_samples ''u'' 20 1 world0))
       = replicate 3 ''u''
   \<and> fst (request_with_retry flaky_server half_samples ''u'' 20 1 world0)
       = Inr (Some \<lparr>status_code = 200, resp_text = ''data''\<rparr>)
   \<and> requested (snd (request_with_retry flaky_server half_samples ''u'' 20 1 world0))
       = replicate 3 ''u''
   \<and> (\<forall>i. failed (down_server i ''u''))
   \<and> fst (make_request_with_retry down_server half_samples ''u'' 20 1 world0) = Inr None
   \<and> requested (snd (make_request_with_retry down_server half_samples ''u'' 20 1 world0))
       = replicate 20 ''u''
   \<and> fst (request_with_retry down_server half_samples ''u'' 20 1 world0) = Inr None
   \<and> requested (snd (request_with_retry down_server half_samples ''u'' 20 1 world0))
       = replicate 20 ''u''"
proof -
  have u: "unit_samples half_samples"
    by (simp add: unit_samples_def half_samples_def)
  have d: "(0::real) \<le> 1" by simp
  have f: "\<forall>i<3 - 1. failed (flaky_server (length (requested world0) + i) ''u'')"
    by (simp add: flaky_server_def failed_def world0_def)
  have r: "\<forall>i<3 - 1. rejected (flaky_server (length (requested world0) + i) ''u'')"
    by (simp add: flaky_server_def rejected_def world0_def)
  have s: "flaky_server (length (requested world0) + (3 - 1)) ''u''
             = Responded \<lparr>status_code = 200, resp_text = ''data''\<rparr>"
    by (simp add: flaky_server_def world0_def)
  have b: "strip (resp_text \<lparr>status_code = 200, resp_text = ''data''\<rparr>) \<noteq> []"
    by (simp add: strip_def lstrip_def rstrip_def isspace_def)
  have a: "\<forall>i<nat 20. failed (down_server (length (requested world0) + i) ''u'')"
    by (simp add: down_server_def failed_def)
  have w0: "requested world0 = []" by (simp add: world0_def)
  note t1 = retry_returns_first_success [OF u d, of 3 20 flaky_server world0 "''u''"
      "\<lparr>status_code = 200, resp_text = ''data''\<rparr>"]
  note t2 = retry_returns_first_success [OF u d, of 3 20 down_server world0 "''u''"
      "\<lparr>status_code = 200, resp_text = ''data''\<rparr>"]
  from t1 f r s b have
    "\<exists>w'. make_request_with_retry flaky_server half_samples ''u'' 20 1 world0
            = (Inr (Some \<lparr>status_code = 200, resp_text = ''data''\<rparr>), w')
         \<and> requested w' = requested world0 @ replicate 3 ''u''"
    "\<exists>w'. request_with_retry flaky_server half_samples ''u'' 20 1 world0
            = (Inr (Some \<lparr>status_code = 200, resp_text = ''data''\<rparr>), w')
         \<and> requested w' = requested world0 @ replicate 3 ''u''"
    by simp_all
  moreover from t2 a have
    "\<exists>w'. make_request_with_retry down_server half_samples ''u'' 20 1 world0 = (Inr None, w')
         \<and> requested w' = requested world0 @ replicate (nat 20) ''u''"
    "\<exists>w'. request_with_retry down_server half_samples ''u'' 20 1 world0 = (Inr None, w')
         \<and> requested w' = requested world0 @ replicate (nat 20) ''u''"
    by blast+
  moreover have "failed (flaky_server 0 ''u'')" "failed (flaky_server 1 ''u'')"
    "rejected (flaky_server 0 ''u'')" "rejected (flaky_server 1 ''u'')"
    "flaky_server 2 ''u'' = Responded \<lparr>status_code = 200, resp_text = ''data''\<rparr>"
    "\<forall>i. failed (down_server i ''u'')"
    by (simp_all add: flaky_server_def down_server_def failed_def rejected_def)
  ultimately show ?thesis
    using u w0 by auto
qed

text \<open>
  Claim C10. The SMILES helper returns a response only when its status is 200 and
  its body is not blank. If the server answers every one of the \<open>max_retries\<close>
  attempts with status 200 and a blank body, \<open>request_with_retry\<close> issues exactly
  \<open>max_retries\<close> requests, sleeps after each, and returns None. (The base delay is
  non-negative and the random values lie in \<open>[0, 1)\<close>.)
\<close>

theorem request_with_retry_blank_body:
  assumes "unit_samples rnd" and "0 \<le> pause"
  shows "(\<forall>r w'. request_with_retry net rnd url max_retries pause w = (Inr (Some r), w')
            \<longrightarrow> status_code r = 200 \<and> strip (resp_text r) \<noteq> [])
       \<and> ((\<forall>i<nat max_retries. \<exists>r. net (length (requested w) + i) url = Responded r
               \<and> status_code r = 200 \<and> strip (resp_text r) = [])
          \<longrightarrow> (\<exists>w'. request_with_retry net rnd url max_retries pause w = (Inr None, w')
                 \<and> requested w' = requested w @ replicate (nat max_retries) url
                 \<and> length (slept w') = length (slept w) + nat max_retries))"
proof -
  have rnd: "\<forall>n. 0 \<le> rnd n" using assms(1) by (simp add: unit_samples_def)
  have 1: "\<forall>r w'. request_with_retry net rnd url max_retries pause w = (Inr (Some r), w')
            \<longrightarrow> status_code r = 200 \<and> strip (resp_text r) \<noteq> []"
    using request_accepts [of net rnd url max_retries pause w] by blast
  have 2: "(\<forall>i<nat max_retries. \<exists>r. net (length (requested w) + i) url = Responded r
               \<and> status_code r = 200 \<and> strip (resp_text r) = [])
          \<longrightarrow> (\<exists>w'. request_with_retry net rnd url max_retries pause w = (Inr None, w')
                 \<and> requested w' = requested w @ replicate (nat max_retries) url
                 \<and> length (slept w') = length (slept w) + nat max_retries)"
  proof
    assume blank: "\<forall>i<nat max_retries. \<exists>r. net (length (requested w) + i) url = Responded r
               \<and> status_code r = 200 \<and> strip (resp_text r) = []"
    have "\<forall>i<nat max_retries. rejected (net (length (requested w) + i) url)"
    proof (intro allI impI)
      fix i assume "i < nat max_retries"
      with blank obtain r where "net (length (requested w) + i) url = Responded r"
        "strip (resp_text r) = []" by blast
      then show "rejected (net (length (requested w) + i) url)"
        by (simp add: rejected_def)
    qed
    with request_all_rejected [of max_retries net w url rnd pause] rnd assms(2)
    obtain w' where "request_with_retry net rnd url max_retries pause w = (Inr None, w')"
      "requested w' = requested w @ replicate (nat max_retries) url"
      "slept w' = slept w
         @ map (\<lambda>i. smiles_delay pause (smiles_jitter (rnd (drawn w + i)))) [0..<nat max_retries]"
      by blast
    then show "\<exists>w'. request_with_retry net rnd url max_retries pause w = (Inr None, w')
                 \<and> requested w' = requested w @ replicate (nat max_retries) url
                 \<and> length (slept w') = length (slept w) + nat max_retries"
      by simp
  qed
  from 1 2 show ?thesis by blast
qed

theorem request_with_retry_blank_body_witness:
  "unit_samples half_samples
   \<and> (\<forall>i. \<exists>r. blank_server i ''u'' = Responded r
          \<and> status_code r = 200 \<and> strip (resp_text r) = [])
   \<and> fst (request_with_retry blank_server half_samples ''u'' 20 1 world0) = Inr None
   \<and> requested (snd (request_with_retry blank_server half_samples ''u'' 20 1 world0))
       = replicate 20 ''u''
   \<and> length (slept (snd (request_with_retry blank_server half_samples ''u'' 20 1 world0))) = 20"
proof -
  have u: "unit_samples half_samples"
    by (simp add: unit_samples_def half_samples_def)
  have d: "(0::real) \<le> 1" by simp
  have b: "\<forall>i<nat 20. \<exists>r. blank_server (length (requested world0) + i) ''u'' = Responded r
          \<and> status_code r = 200 \<and> strip (resp_text r) = []"
    by (simp add: blank_server_def strip_def lstrip_def rstrip_def isspace_def NL_def)
  have w0: "requested world0 = []" "slept world0 = []" by (simp_all add: world0_def)
  from request_with_retry_blank_body [OF u d, of blank_server "''u''" 20 world0] b
  have "\<exists>w'. request_with_retry blank_server half_samples ''u'' 20 1 world0 = (Inr None, w')
          \<and> requested w' = requested world0 @ replicate (nat 20) ''u''
          \<and> length (slept w') = length (slept world0) + nat 20"
    by blast
  moreover have "\<forall>i. \<exists>r. blank_server i ''u'' = Responded r
          \<and> status_code r = 200 \<and> strip (resp_text r) = []"
    by (simp add: blank_server_def strip_def lstrip_def rstrip_def isspace_def NL_def)
  ultimately show ?thesis
    using u w0 by auto
qed

section \<open>Properties of the rate limiter\<close>

lemma length_evict: "length (evict t P q) \<le> length q"
  by (induction q) auto

lemma evict_keep: "t - x < P \<Longrightarrow> evict t P (x # q) = x # q"
  by simp

lemma evict_drop: "\<not> t - x < P \<Longrightarrow> length (evict t P (x # q)) \<le> length q"
  by (simp add: length_evict)

lemma acquire_at_below:
  assumes "int (length (calls L)) < max_calls L"
  shows "acquire_at t L = (Inr None, L\<lparr>calls := evict t (time_period L) (calls L) @ [t]\<rparr>)"
proof -
  have "int (length (evict t (time_period L) (calls L))) < max_calls L"
    using assms length_evict [of t "time_period L" "calls L"] by linarith
  then show ?thesis
    by (simp add: acquire_at_def Let_def)
qed

lemma acquisitions_window:
  assumes "1 \<le> m" and "\<forall>g\<in>set gaps. 0 \<le> g" and "gaps \<noteq> []"
    and "max_calls L = m" and "time_period L = P" and "t1 \<le> now"
    and "(calls L \<noteq> [] \<and> hd (calls L) = t1
            \<and> int (length (calls L)) + int (length gaps) = m + 1)
         \<or> (t1 + P \<le> now \<and> int (length (calls L)) + int (length gaps) \<le> m)"
  shows "\<exists>L'. acquisitions gaps now L = (Inr (max (now + sum_list gaps) (t1 + P)), L')"
  using assms(2-)
proof (induction gaps arbitrary: now L)
  case Nil
  then show ?case by simp
next
  case (Cons g rest)
  let ?t = "now + g"
  let ?q = "evict ?t P (calls L)"
  have g: "0 \<le> g" and rest_nonneg: "\<forall>g\<in>set rest. 0 \<le> g" using Cons.prems(1) by auto
  have mc: "max_calls L = m" and tp: "time_period L = P" and t1: "t1 \<le> now"
    using Cons.prems by auto
  note inv = Cons.prems(6)
  show ?case
  proof (cases "rest = []")
    case True
    from inv show ?thesis
    proof
      assume kept: "calls L \<noteq> [] \<and> hd (calls L) = t1
            \<and> int (length (calls L)) + int (length (g # rest)) = m + 1"
      then obtain q where q: "calls L = t1 # q" by (cases "calls L") auto
      have len: "int (length (calls L)) = m" using kept True by simp
      show ?thesis
      proof (cases "?t - t1 < P")
        case True
        then have "?q = t1 # q" by (simp add: q)
        then show ?thesis
          using True len q mc tp \<open>rest = []\<close>
          by (simp add: acquire_at_def Let_def max_def)
      next
        case False
        then have "length ?q \<le> length q" unfolding q by (rule evict_drop)
        then have "int (length ?q) < m" using len q by simp
        then have "acquire_at ?t L = (Inr None, L\<lparr>calls := ?q @ [?t]\<rparr>)"
          using mc tp by (simp add: acquire_at_def Let_def)
        then show ?thesis
          using False \<open>rest = []\<close> by (simp add: max_def)
      qed
    next
      assume gone: "t1 + P \<le> now \<and> int (length (calls L)) + int (length (g # rest)) \<le> m"
      then have "int (length (calls L)) < max_calls L" using mc by simp
      from acquire_at_below [OF this, of ?t]
      show ?thesis
        using gone g \<open>rest = []\<close> by (simp add: max_def)
    qed
  next
    case False
    then have rest_len: "1 \<le> length rest" by (cases rest) auto
    have below: "int (length (calls L)) < max_calls L"
      using inv rest_len mc by auto
    let ?L' = "L\<lparr>calls := ?q @ [?t]\<rparr>"
    have step: "acquire_at ?t L = (Inr None, ?L')"
      using acquire_at_below [OF below, of ?t] tp by simp
    have inv': "(calls ?L' \<noteq> [] \<and> hd (calls ?L') = t1
            \<and> int (length (calls ?L')) + int (length rest) = m + 1)
         \<or> (t1 + P \<le> ?t \<and> int (length (calls ?L')) + int (length rest) \<le> m)"
      using inv
    proof
      assume kept: "calls L \<noteq> [] \<and> hd (calls L) = t1
            \<and> int (length (calls L)) + int (length (g # rest)) = m + 1"
      then obtain q where q: "calls L = t1 # q" by (cases "calls L") auto
      show ?thesis
      proof (cases "?t - t1 < P")
        case True
        then have "?q = t1 # q" by (simp add: q)
        then show ?thesis using kept q by simp
      next
        case False
        then have "length ?q \<le> length q" unfolding q by (rule evict_drop)
        then show ?thesis using kept q False by simp
      qed
    next
      assume gone: "t1 + P \<le> now \<and> int (length (calls L)) + int (length (g # rest)) \<le> m"
      then show ?thesis
        using g length_evict [of ?t P "calls L"] by simp
    qed
    have "\<exists>L''. acquisitions rest ?t ?L' = (Inr (max (?t + sum_list rest) (t1 + P)), L'')"
      using Cons.IH [of ?L' ?t] rest_nonneg False mc tp t1 g inv' by simp
    then show ?thesis
      using step by (simp add: add.assoc)
  qed
qed

text \<open>With a capacity of 0 the first acquisition reads the head of the empty queue.\<close>

lemma acquire_at_zero_capacity:
  "acquire_at t (RateLimiter 0 P) = (Inl IndexError, RateLimiter 0 P)"
  by (simp add: acquire_at_def RateLimiter_def)

text \<open>
  Claim C2, as stated, fails when an earlier timestamp has left the window: with
  2 calls per 60 seconds and acquisitions at times 0, 50 and 70, the third
  acquisition evicts the timestamp 0, does not sleep and completes at time 70,
  although the earliest acquisition still inside the trailing window, at time 50,
  is only 20 seconds old.
\<close>

theorem rate_limiter_window_counterexample:
  "acquisitions [0, 50, 20] 0 (RateLimiter 2 60)
     = (Inr 70, \<lparr>max_calls = 2, time_period = 60, calls = [50, 70]\<rparr>)
   \<and> (70::real) < 50 + 60"
  by (simp add: RateLimiter_def acquire_at_def Let_def)

text \<open>
  Claim C2, amended. For a limiter with \<open>max_calls \<ge> 1\<close> and an empty queue, and
  every sequence of \<open>max_calls + 1\<close> acquisitions on a clock that does not run
  backwards, all acquisitions succeed and the last one completes at the later of
  its own start and the start of the first acquisition plus \<open>time_period\<close>; so it
  completes no earlier than \<open>time_period\<close> after the first of the
  \<open>max_calls + 1\<close> acquisitions.
\<close>

theorem rate_limiter_delays_burst:
  assumes "1 \<le> max_calls L" and "calls L = []"
    and "\<forall>g\<in>set gaps. 0 \<le> g" and "int (length gaps) = max_calls L"
  shows "\<exists>finished L'. acquisitions (gap0 # gaps) now L = (Inr finished, L')
       \<and> finished = max (now + gap0 + sum_list gaps) (now + gap0 + time_period L)
       \<and> now + gap0 + time_period L \<le> finished"
proof -
  let ?t1 = "now + gap0"
  let ?L1 = "L\<lparr>calls := [?t1]\<rparr>"
  have first: "acquire_at ?t1 L = (Inr None, ?L1)"
    using assms(1,2) acquire_at_below [of L ?t1] by simp
  have ne: "gaps \<noteq> []" using assms(1,4) by auto
  have "\<exists>L'. acquisitions gaps ?t1 ?L1
          = (Inr (max (?t1 + sum_list gaps) (?t1 + time_period L)), L')"
    using acquisitions_window [of "max_calls L" gaps ?L1 "time_period L" ?t1 ?t1]
      assms(1,3,4) ne by simp
  then show ?thesis
    using first by simp
qed

theorem rate_limiter_delays_burst_witness:
  "1 \<le> max_calls (RateLimiter 2 60) \<and> calls (RateLimiter 2 60) = []
   \<and> (0 :: real) \<le> 1 \<and> int (length [1, 1 :: real]) = max_calls (RateLimiter 2 60)
   \<and> (\<exists>L'. acquisitions [0, 1, 1] 100 (RateLimiter 2 60) = (Inr 160, L'))"
  using rate_limiter_delays_burst [of "RateLimiter 2 60" "[1, 1]" 0 100]
  by (simp add: RateLimiter_def)

section \<open>Properties of the section extractors\<close>

lemma indented_not_header: "startswith l ''  '' \<Longrightarrow> \<not> startswith l ''PATHWAY''"
  by (cases l) auto

lemma scan_entry_no_header:
  "\<forall>l\<in>set ls. \<not> startswith l ''PATHWAY'' \<Longrightarrow> scan_entry False ps ls = ps"
  by (induction ls) auto

lemma scan_entry_prefix:
  "\<forall>l\<in>set pre. \<not> startswith l ''PATHWAY'' \<Longrightarrow>
     scan_entry False ps (pre @ ls) = scan_entry False ps ls"
  by (induction pre) auto

lemma scan_disease_entry_no_header:
  "\<forall>l\<in>set ls. \<not> startswith l ''PATHWAY'' \<Longrightarrow> scan_disease_entry False ps ls = ps"
  by (induction ls) auto

lemma scan_disease_entry_prefix:
  "\<forall>l\<in>set pre. \<not> startswith l ''PATHWAY'' \<Longrightarrow>
     scan_disease_entry False ps (pre @ ls) = scan_disease_entry False ps ls"
  by (induction pre) auto

lemma set_add_match:
  "set (add_match part ps) = set ps \<union> set_option (search_hsa5 part)"
  by (auto simp: add_match_def set_add_def split: option.splits)

text \<open>
  Claim C3, as stated, fails when the closing line begins with the keyword: it
  opens the section again and its code is extracted.
\<close>

theorem extractor_closing_line_counterexample:
  "split NL reopened_record =
     [''PATHWAY     hsa04910'', ''            hsa04930'', ''            hsa04931'',
      ''            hsa04932'', ''PATHWAY_MAP hsa04950'']
   \<and> \<not> startswith ''PATHWAY_MAP hsa04950'' ''  ''
   \<and> extract_pathways_from_entry reopened_record =
       [''path:hsa04910'', ''path:hsa04930'', ''path:hsa04931'', ''path:hsa04932'',
        ''path:hsa04950'']"
  by (simp add: extract_pathways_from_entry_def reopened_record_def NL_def
      match_digits_def isdigit_def)

text \<open>
  Claim C3, amended. Take lines \<open>pre @ h # c1 # c2 # c3 # z # post\<close> in which \<open>h\<close>
  begins with \<open>PATHWAY\<close>, \<open>c1\<close>, \<open>c2\<close> and \<open>c3\<close> begin with two spaces, \<open>z\<close> does not,
  and no line other than \<open>h\<close> begins with \<open>PATHWAY\<close>. If these are the lines of the
  entry text, \<open>_extract_pathways_from_entry\<close> returns exactly the matches of
  \<open>hsa\d+\<close> in \<open>h\<close>, \<open>c1\<close>, \<open>c2\<close> and \<open>c3\<close>, in order, each with the prefix \<open>path:\<close>,
  and nothing from any other line. The disease script scans the lines of the
  response text with the surrounding whitespace stripped: if these are the lines
  of that stripped text, for a response that counts as true, the scan adds to
  its set the leftmost match of \<open>hsa\d{5}\<close> in what is left of \<open>h\<close> when every
  occurrence of \<open>PATHWAY\<close> has been deleted from it and the rest stripped, and the
  leftmost match of \<open>hsa\d{5}\<close> in each of \<open>c1\<close>, \<open>c2\<close> and \<open>c3\<close>, where there is one,
  and nothing from any other line.
\<close>

theorem extractor_pathway_section:
  assumes "startswith h ''PATHWAY''"
    and "startswith c1 ''  ''" and "startswith c2 ''  ''" and "startswith c3 ''  ''"
    and "\<not> startswith z ''  ''"
    and "\<forall>l\<in>set pre \<union> set (z # post). \<not> startswith l ''PATHWAY''"
  shows "(split NL entry_text = pre @ h # c1 # c2 # c3 # z # post \<longrightarrow>
            extract_pathways_from_entry entry_text =
              map (\<lambda>m. ''path:'' @ m)
                (findall_hsa h @ findall_hsa c1 @ findall_hsa c2 @ findall_hsa c3))
       \<and> (ok response \<and> split NL (strip (resp_text response)) = pre @ h # c1 # c2 # c3 # z # post \<longrightarrow>
            set (disease_entry_pathways pathways (Some response)) =
              set pathways \<union> set_option (search_hsa5 (strip (remove_all ''PATHWAY'' h)))
                \<union> set_option (search_hsa5 (strip c1)) \<union> set_option (search_hsa5 (strip c2))
                \<union> set_option (search_hsa5 (strip c3)))"
proof -
  have pre: "\<forall>l\<in>set pre. \<not> startswith l ''PATHWAY''"
    and post: "\<forall>l\<in>set post. \<not> startswith l ''PATHWAY''"
    and z: "\<not> startswith z ''PATHWAY''"
    using assms(6) by auto
  note c = indented_not_header [OF assms(2)] indented_not_header [OF assms(3)]
    indented_not_header [OF assms(4)]
  have drug: "scan_entry False [] (pre @ h # c1 # c2 # c3 # z # post) =
      map (\<lambda>m. ''path:'' @ m)
        (findall_hsa h @ findall_hsa c1 @ findall_hsa c2 @ findall_hsa c3)"
    using assms(1-5) c z
    by (simp del: startswith.simps add: scan_entry_prefix [OF pre] scan_entry_no_header [OF post])
  have disease: "scan_disease_entry False pathways (pre @ h # c1 # c2 # c3 # z # post) =
      add_match (strip c3) (add_match (strip c2) (add_match (strip c1)
        (add_match (strip (remove_all ''PATHWAY'' h)) pathways)))"
    using assms(1-5) c z
    by (simp del: startswith.simps
        add: scan_disease_entry_prefix [OF pre] scan_disease_entry_no_header [OF post])
  have entry: "set (disease_entry_pathways pathways (Some response)) =
              set pathways \<union> set_option (search_hsa5 (strip (remove_all ''PATHWAY'' h)))
                \<union> set_option (search_hsa5 (strip c1)) \<union> set_option (search_hsa5 (strip c2))
                \<union> set_option (search_hsa5 (strip c3))"
    if t: "ok response"
      and l: "split NL (strip (resp_text response)) = pre @ h # c1 # c2 # c3 # z # post"
  proof -
    have "strip (resp_text response) \<noteq> []"
    proof
      assume "strip (resp_text response) = []"
      then have "length (split NL (strip (resp_text response))) = 1" by simp
      then show False unfolding l by simp
    qed
    then have "disease_entry_pathways pathways (Some response) =
        scan_disease_entry False pathways (pre @ h # c1 # c2 # c3 # z # post)"
      using t l by (simp add: disease_entry_pathways_def stripped_lines_def)
    then show ?thesis
      unfolding disease by (auto simp: set_add_match)
  qed
  have "split NL entry_text = pre @ h # c1 # c2 # c3 # z # post \<longrightarrow>
            extract_pathways_from_entry entry_text =
              map (\<lambda>m. ''path:'' @ m)
                (findall_hsa h @ findall_hsa c1 @ findall_hsa c2 @ findall_hsa c3)"
    unfolding extract_pathways_from_entry_def using drug by simp
  with entry show ?thesis by blast
qed

theorem extractor_pathway_section_witness:
  "startswith ''PATHWAY     hsa04910  Insulin'' ''PATHWAY''
   \<and> startswith ''            hsa04930  hsa04931'' ''  ''
   \<and> startswith ''            none'' ''  ''
   \<and> startswith ''            hsa04932'' ''  ''
   \<and> \<not> startswith ''DISEASE     H00408 hsa00001'' ''  ''
   \<and> \<not> startswith ''ENTRY       3643'' ''PATHWAY''
   \<and> \<not> startswith ''DISEASE     H00408 hsa00001'' ''PATHWAY''
   \<and> \<not> startswith ''  hsa00002'' ''PATHWAY''
   \<and> split NL gene_record =
       [''ENTRY       3643''] @ ''PATHWAY     hsa04910  Insulin'' #
       ''            hsa04930  hsa04931'' # ''            none'' # ''            hsa04932'' #
       ''DISEASE     H00408 hsa00001'' # [''  hsa00002'']
   \<and> extract_pathways_from_entry gene_record =
       [''path:hsa04910'', ''path:hsa04930'', ''path:hsa04931'', ''path:hsa04932'']
   \<and> ok padded_response
   \<and> split NL (strip (resp_text padded_response)) =
       [''ENTRY       3643''] @ ''PATHWAY     hsa04910  Insulin'' #
       ''            hsa04930  hsa04931'' # ''            none'' # ''            hsa04932'' #
       ''DISEASE     H00408 hsa00001'' # [''  hsa00002'']
   \<and> set (disease_entry_pathways [''hsa05010''] (Some padded_response)) =
       {''hsa05010'', ''hsa04910'', ''hsa04930'', ''hsa04932''}"
proof -
  have s: "split NL gene_record =
       [''ENTRY       3643''] @ ''PATHWAY     hsa04910  Insulin'' #
       ''            hsa04930  hsa04931'' # ''            none'' # ''            hsa04932'' #
       ''DISEASE     H00408 hsa00001'' # [''  hsa00002'']"
    by (simp add: gene_record_def NL_def)
  have p: "strip (resp_text padded_response) = gene_record"
    by (simp add: padded_response_def gene_record_def strip_def lstrip_def rstrip_def
        isspace_def NL_def)
  have k: "ok padded_response"
    by (simp add: ok_def padded_response_def)
  have f: "findall_hsa ''PATHWAY     hsa04910  Insulin'' = [''hsa04910'']"
    "findall_hsa ''            hsa04930  hsa04931'' = [''hsa04930'', ''hsa04931'']"
    "findall_hsa ''            none'' = []"
    "findall_hsa ''            hsa04932'' = [''hsa04932'']"
    by (simp_all add: match_digits_def isdigit_def)
  have g: "search_hsa5 (strip (remove_all ''PATHWAY'' ''PATHWAY     hsa04910  Insulin''))
             = Some ''hsa04910''"
    "search_hsa5 (strip ''            hsa04930  hsa04931'') = Some ''hsa04930''"
    "search_hsa5 (strip ''            none'') = None"
    "search_hsa5 (strip ''            hsa04932'') = Some ''hsa04932''"
    by (simp_all add: strip_def lstrip_def rstrip_def isspace_def match_hsa5_def isdigit_def)
  note t = extractor_pathway_section [of "''PATHWAY     hsa04910  Insulin''"
      "''            hsa04930  hsa04931''" "''            none''" "''            hsa04932''"
      "''DISEASE     H00408 hsa00001''" "[''ENTRY       3643'']" "[''  hsa00002'']"
      gene_record padded_response "[''hsa05010'']"]
  have h: "startswith ''PATHWAY     hsa04910  Insulin'' ''PATHWAY''"
    "startswith ''            hsa04930  hsa04931'' ''  ''"
    "startswith ''            none'' ''  ''"
    "startswith ''            hsa04932'' ''  ''"
    "\<not> startswith ''DISEASE     H00408 hsa00001'' ''  ''"
    "\<forall>l\<in>set [''ENTRY       3643''] \<union> set [''DISEASE     H00408 hsa00001'', ''  hsa00002''].
         \<not> startswith l ''PATHWAY''"
    by simp_all
  from t [OF h] s k have
    "extract_pathways_from_entry gene_record =
       map (\<lambda>m. ''path:'' @ m)
         (findall_hsa ''PATHWAY     hsa04910  Insulin''
          @ findall_hsa ''            hsa04930  hsa04931''
          @ findall_hsa ''            none'' @ findall_hsa ''            hsa04932'')"
    "set (disease_entry_pathways [''hsa05010''] (Some padded_response)) =
       set [''hsa05010'']
       \<union> set_option (search_hsa5 (strip (remove_all ''PATHWAY'' ''PATHWAY     hsa04910  Insulin'')))
       \<union> set_option (search_hsa5 (strip ''            hsa04930  hsa04931''))
       \<union> set_option (search_hsa5 (strip ''            none''))
       \<union> set_option (search_hsa5 (strip ''            hsa04932''))"
    unfolding p by simp_all
  then have
    "extract_pathways_from_entry gene_record =
       [''path:hsa04910'', ''path:hsa04930'', ''path:hsa04931'', ''path:hsa04932'']"
    "set (disease_entry_pathways [''hsa05010''] (Some padded_response)) =
       {''hsa05010'', ''hsa04910'', ''hsa04930'', ''hsa04932''}"
    unfolding f g by auto
  with h s k show ?thesis unfolding p by simp
qed

section \<open>Properties of the workers\<close>

lemma acquire_at_total:
  assumes "1 \<le> max_calls L"
  shows "\<exists>s L'. acquire_at t L = (Inr s, L') \<and> max_calls L' = max_calls L
           \<and> (\<forall>d. s = Some d \<longrightarrow> 0 < d)"
proof (cases "evict t (time_period L) (calls L)")
  case Nil
  then show ?thesis using assms by (simp add: acquire_at_def Let_def)
next
  case (Cons x q)
  then show ?thesis by (simp add: acquire_at_def Let_def)
qed

lemma acquire_total:
  assumes "1 \<le> max_calls L"
  shows "\<exists>L' w'. acquire clock L w = (Inr (), L', w') \<and> max_calls L' = max_calls L
           \<and> requested w' = requested w \<and> logged w' = logged w"
proof -
  from acquire_at_total [OF assms, of "clock (clock_reads w)"]
  obtain s L' where s: "acquire_at (clock (clock_reads w)) L = (Inr s, L')"
    "max_calls L' = max_calls L" "\<forall>d. s = Some d \<longrightarrow> 0 < d" by blast
  show ?thesis
  proof (cases s)
    case None
    then show ?thesis using s by (simp add: acquire_def time_time_def)
  next
    case (Some d)
    then have "0 < d" using s(3) by simp
    then show ?thesis using s Some by (simp add: acquire_def time_time_def sleep_def)
  qed
qed

lemma kegg_api_request_once:
  assumes "1 \<le> max_calls L"
  shows "\<exists>L' w'. kegg_api_request net clock (''get/'' @ drug_id) L w =
             (Inr (case net (length (requested w)) (drug_url drug_id) of
                     Raised \<Rightarrow> None
                   | Responded r \<Rightarrow> if status_code r = 200 then Some (resp_text r) else None),
              L', w')
           \<and> max_calls L' = max_calls L
           \<and> requested w' = requested w @ [drug_url drug_id]
           \<and> logged w' = logged w
                @ drug_events drug_id (net (length (requested w)) (drug_url drug_id))"
proof -
  from acquire_total [OF assms, of clock w]
  obtain L' w1 where a: "acquire clock L w = (Inr (), L', w1)" "max_calls L' = max_calls L"
    "requested w1 = requested w" "logged w1 = logged w" by blast
  show ?thesis
  proof (cases "net (length (requested w)) (drug_url drug_id)")
    case Raised
    then show ?thesis
      using a by (simp add: kegg_api_request_def http_get_def print_def drug_url_def
          drug_events_def Let_def)
  next
    case (Responded r)
    then show ?thesis
      using a by (simp add: kegg_api_request_def http_get_def print_def drug_url_def
          drug_events_def Let_def)
  qed
qed

lemma drug_batch_loop_all:
  assumes "1 \<le> max_calls L"
  shows "\<exists>L' w'. drug_batch_loop net clock known pairs batch L w =
             (Inr (pairs @ concat (map (\<lambda>(n, d). drug_pairs known d (net n (drug_url d)))
                                    (enumerate (length (requested w)) batch))), L', w')
           \<and> requested w' = requested w @ map drug_url batch
           \<and> logged w' = logged w
                @ concat (map (\<lambda>(n, d). drug_events d (net n (drug_url d)))
                            (enumerate (length (requested w)) batch))"
  using assms
proof (induction batch arbitrary: pairs L w)
  case Nil
  show ?case by simp
next
  case (Cons d batch)
  from kegg_api_request_once [OF Cons.prems, of net clock d w]
  obtain L1 w1 where
    k: "kegg_api_request net clock (''get/'' @ d) L w =
             (Inr (case net (length (requested w)) (drug_url d) of
                     Raised \<Rightarrow> None
                   | Responded r \<Rightarrow> if status_code r = 200 then Some (resp_text r) else None),
              L1, w1)"
      "max_calls L1 = max_calls L"
      "requested w1 = requested w @ [drug_url d]"
      "logged w1 = logged w @ drug_events d (net (length (requested w)) (drug_url d))"
    by blast
  have m: "1 \<le> max_calls L1" using k(2) Cons.prems by simp
  let ?p = "pairs @ drug_pairs known d (net (length (requested w)) (drug_url d))"
  have step: "drug_batch_loop net clock known pairs (d # batch) L w =
      drug_batch_loop net clock known ?p batch L1 w1"
    unfolding drug_batch_loop.simps k(1)
    by (cases "net (length (requested w)) (drug_url d)") (simp_all add: drug_pairs_def)
  from Cons.IH [OF m, of ?p w1] k(3,4)
  show ?case
    unfolding step by auto
qed

lemma chunk_loop_failed_step:
  "worker d w = (Inl e, w1) \<Longrightarrow>
     chunk_loop worker rnd c rs (d # rest) w =
       chunk_loop worker rnd c (rs @ [(d, [])]) rest (print (ChunkError c d e) w1)"
  by simp

lemma chunk_loop_done_step:
  assumes "unit_samples rnd" and "worker d w = (Inr (ps, x), w1)"
  shows "chunk_loop worker rnd c rs (d # rest) w =
       chunk_loop worker rnd c (rs @ [(d, ps)]) rest
         (w1\<lparr>slept := slept w1 @ [1 / 2 + 1 / 2 * rnd (drawn w1)], drawn := Suc (drawn w1)\<rparr>)"
proof -
  have "0 \<le> rnd (drawn w1)" using assms(1) by (simp add: unit_samples_def)
  then show ?thesis
    using assms(2) by (cases w1) (simp add: uniform_def sleep_def Let_def)
qed

lemma chunk_loop_results:
  assumes "unit_samples rnd"
  shows "chunk_loop worker rnd c rs ids w =
           (rs @ fst (chunk_loop worker rnd c [] ids w), snd (chunk_loop worker rnd c [] ids w))"
proof (induction ids arbitrary: rs w)
  case Nil
  show ?case by simp
next
  case (Cons d ids)
  obtain res w1 where r: "worker d w = (res, w1)" by (cases "worker d w")
  show ?case
  proof (cases res)
    case (Inl e)
    with r have f: "worker d w = (Inl e, w1)" by simp
    show ?thesis
      unfolding chunk_loop_failed_step [where worker = worker and d = d and w = w, OF f]
      using Cons.IH [of "rs @ [(d, [])]"] Cons.IH [of "[] @ [(d, [])]"] by simp
  next
    case (Inr px)
    obtain ps x where "px = (ps, x)" by (cases px)
    with r Inr have f: "worker d w = (Inr (ps, x), w1)" by simp
    show ?thesis
      unfolding chunk_loop_done_step [where worker = worker and d = d and w = w, OF assms f]
      using Cons.IH [of "rs @ [(d, ps)]"] Cons.IH [of "[] @ [(d, ps)]"] by simp
  qed
qed

lemma chunk_loop_append_acc:
  "chunk_loop worker rnd c rs (pre @ ids) w =
     (case chunk_loop worker rnd c rs pre w of (rs1, w1) \<Rightarrow> chunk_loop worker rnd c rs1 ids w1)"
proof (induction pre arbitrary: rs w)
  case Nil
  show ?case by simp
next
  case (Cons d pre)
  show ?case
    by (simp add: Cons.IH Let_def split: prod.splits sum.splits)
qed

lemma chunk_loop_append:
  assumes "unit_samples rnd" and "chunk_loop worker rnd c [] pre w = (rs1, w1)"
  shows "chunk_loop worker rnd c [] (pre @ ids) w =
           (rs1 @ fst (chunk_loop worker rnd c [] ids w1), snd (chunk_loop worker rnd c [] ids w1))"
proof -
  have "chunk_loop worker rnd c [] (pre @ ids) w = chunk_loop worker rnd c rs1 ids w1"
    by (simp add: chunk_loop_append_acc assms(2))
  then show ?thesis
    using chunk_loop_results [OF assms(1), of worker c rs1 ids w1] by simp
qed

lemma chunk_loop_ids:
  assumes "unit_samples rnd"
  shows "map fst (fst (chunk_loop worker rnd c [] ids w)) = ids"
proof (induction ids arbitrary: w)
  case Nil
  show ?case by simp
next
  case (Cons d ids)
  obtain res w1 where r: "worker d w = (res, w1)" by (cases "worker d w")
  show ?case
  proof (cases res)
    case (Inl e)
    with r have f: "worker d w = (Inl e, w1)" by simp
    show ?thesis
      using chunk_loop_failed_step [where worker = worker and d = d and w = w and rnd = rnd and c = c and rs = "[]" and rest = ids, OF f]
        chunk_loop_results [OF assms, of worker c "[(d, [])]" ids "print (ChunkError c d e) w1"]
        Cons.IH by simp
  next
    case (Inr px)
    obtain ps x where "px = (ps, x)" by (cases px)
    with r Inr have f: "worker d w = (Inr (ps, x), w1)" by simp
    show ?thesis
      using chunk_loop_done_step [where worker = worker and d = d and w = w and c = c and rs = "[]" and rest = ids, OF assms f]
        chunk_loop_results [OF assms, of worker c "[(d, ps)]" ids]
        Cons.IH by simp
  qed
qed

lemma process_diseases_chunk_failed_step:
  assumes "unit_samples rnd" and "worker d w = (Inl e, w1)"
  shows "process_diseases_chunk worker rnd (d # ids) c w =
           ((d, []) # fst (process_diseases_chunk worker rnd ids c (print (ChunkError c d e) w1)),
            snd (process_diseases_chunk worker rnd ids c (print (ChunkError c d e) w1)))"
proof -
  have "chunk_loop worker rnd c [] (d # ids) w =
      chunk_loop worker rnd c ([] @ [(d, [])]) ids (print (ChunkError c d e) w1)"
    using assms(2) by (rule chunk_loop_failed_step)
  then show ?thesis
    unfolding process_diseases_chunk_def
    using chunk_loop_results [OF assms(1), of worker c "[(d, [])]" ids
        "print (ChunkError c d e) w1"]
    by simp
qed

lemma process_diseases_chunk_done_step:
  assumes "unit_samples rnd" and "worker d w = (Inr (ps, x), w1)"
  shows "\<exists>t. process_diseases_chunk worker rnd (d # ids) c w =
           ((d, ps) # fst (process_diseases_chunk worker rnd ids c
                             (w1\<lparr>slept := slept w1 @ [t], drawn := Suc (drawn w1)\<rparr>)),
            snd (process_diseases_chunk worker rnd ids c
                   (w1\<lparr>slept := slept w1 @ [t], drawn := Suc (drawn w1)\<rparr>)))"
proof -
  let ?w = "w1\<lparr>slept := slept w1 @ [1 / 2 + 1 / 2 * rnd (drawn w1)], drawn := Suc (drawn w1)\<rparr>"
  have "chunk_loop worker rnd c [] (d # ids) w = chunk_loop worker rnd c ([] @ [(d, ps)]) ids ?w"
    using assms by (rule chunk_loop_done_step)
  then have "process_diseases_chunk worker rnd (d # ids) c w =
           ((d, ps) # fst (process_diseases_chunk worker rnd ids c ?w),
            snd (process_diseases_chunk worker rnd ids c ?w))"
    unfolding process_diseases_chunk_def
    using chunk_loop_results [OF assms(1), of worker c "[(d, ps)]" ids ?w]
    by simp
  then show ?thesis by blast
qed


text \<open>
  Claim C7. In \<open>process_diseases_chunk\<close>, whatever the call for one disease does:
  when it raises, the handler prints the error and records the empty list for
  that disease, and the loop goes on with the next disease from there; when it
  returns, its pathways are recorded for that disease, the loop sleeps once and
  goes on. So a failing disease leaves the results of the diseases before and
  after it as they are, and the results name every disease of the chunk exactly
  once, in order, whichever of them fail. In \<open>process_drug_batch\<close>, an exception
  of the request for one drug is caught in \<open>kegg_api_request\<close> and printed; that
  drug contributes no pair, and every drug of the batch is still requested and
  contributes what its own answer holds. (Random values lie in \<open>[0, 1)\<close>; the
  limiter has capacity at least 1, as the one the script builds.)
\<close>

theorem item_failure_does_not_abort:
  assumes "unit_samples rnd" and "1 \<le> max_calls L"
  shows "process_diseases_chunk worker rnd [] c w = ([], w)
       \<and> (worker d w = (Inl e, w1) \<longrightarrow>
            process_diseases_chunk worker rnd (d # ids) c w =
              ((d, []) # fst (process_diseases_chunk worker rnd ids c (print (ChunkError c d e) w1)),
               snd (process_diseases_chunk worker rnd ids c (print (ChunkError c d e) w1))))
       \<and> (worker d w = (Inr (ps, x), w1) \<longrightarrow>
            (\<exists>t. process_diseases_chunk worker rnd (d # ids) c w =
               ((d, ps) # fst (process_diseases_chunk worker rnd ids c
                                 (w1\<lparr>slept := slept w1 @ [t], drawn := Suc (drawn w1)\<rparr>)),
                snd (process_diseases_chunk worker rnd ids c
                       (w1\<lparr>slept := slept w1 @ [t], drawn := Suc (drawn w1)\<rparr>)))))
       \<and> map fst (fst (process_diseases_chunk worker rnd ids c w)) = ids
       \<and> (process_diseases_chunk worker rnd pre c w = (rs1, v1) \<and> worker d v1 = (Inl e, v2) \<longrightarrow>
            (\<exists>rs3 w3. process_diseases_chunk worker rnd post c (print (ChunkError c d e) v2) = (rs3, w3)
               \<and> process_diseases_chunk worker rnd (pre @ d # post) c w = (rs1 @ (d, []) # rs3, w3)
               \<and> map fst rs3 = post))
       \<and> (\<exists>L' w'. process_drug_batch net clock known batch L w =
              (Inr (concat (map (\<lambda>(n, drug_id). drug_pairs known drug_id (net n (drug_url drug_id)))
                              (enumerate (length (requested w)) batch))), L', w')
            \<and> requested w' = requested w @ map drug_url batch
            \<and> logged w' = logged w
                 @ concat (map (\<lambda>(n, drug_id). drug_events drug_id (net n (drug_url drug_id)))
                             (enumerate (length (requested w)) batch)))
       \<and> drug_pairs known drug_id Raised = []
       \<and> drug_events drug_id Raised = [KeggException (drug_url drug_id)]"
proof -
  have 0: "process_diseases_chunk worker rnd [] c w = ([], w)"
    by (simp add: process_diseases_chunk_def)
  have 1: "map fst (fst (process_diseases_chunk worker rnd ids c w)) = ids"
    unfolding process_diseases_chunk_def using assms(1) by (rule chunk_loop_ids)
  have 2: "worker d w = (Inl e, w1) \<longrightarrow>
            process_diseases_chunk worker rnd (d # ids) c w =
              ((d, []) # fst (process_diseases_chunk worker rnd ids c (print (ChunkError c d e) w1)),
               snd (process_diseases_chunk worker rnd ids c (print (ChunkError c d e) w1)))"
    using process_diseases_chunk_failed_step [OF assms(1), of worker d w e w1 ids c] by blast
  have 6: "worker d w = (Inr (ps, x), w1) \<longrightarrow>
            (\<exists>t. process_diseases_chunk worker rnd (d # ids) c w =
               ((d, ps) # fst (process_diseases_chunk worker rnd ids c
                                 (w1\<lparr>slept := slept w1 @ [t], drawn := Suc (drawn w1)\<rparr>)),
                snd (process_diseases_chunk worker rnd ids c
                       (w1\<lparr>slept := slept w1 @ [t], drawn := Suc (drawn w1)\<rparr>))))"
    using process_diseases_chunk_done_step [OF assms(1), of worker d w ps x w1 ids c] by blast
  have 3: "process_diseases_chunk worker rnd pre c w = (rs1, v1) \<and> worker d v1 = (Inl e, v2) \<longrightarrow>
            (\<exists>rs3 w3. process_diseases_chunk worker rnd post c (print (ChunkError c d e) v2) = (rs3, w3)
               \<and> process_diseases_chunk worker rnd (pre @ d # post) c w = (rs1 @ (d, []) # rs3, w3)
               \<and> map fst rs3 = post)"
    unfolding process_diseases_chunk_def
  proof
    assume h: "chunk_loop worker rnd c [] pre w = (rs1, v1) \<and> worker d v1 = (Inl e, v2)"
    let ?w = "print (ChunkError c d e) v2"
    obtain rs3 w3 where r3: "chunk_loop worker rnd c [] post ?w = (rs3, w3)"
      by (cases "chunk_loop worker rnd c [] post ?w")
    have "chunk_loop worker rnd c [] (d # post) v1 = chunk_loop worker rnd c ([] @ [(d, [])]) post ?w"
      using h by (intro chunk_loop_failed_step) simp
    also have "\<dots> = ((d, []) # rs3, w3)"
      using chunk_loop_results [OF assms(1), of worker c "[(d, [])]" post ?w] r3 by simp
    finally have "chunk_loop worker rnd c [] (pre @ d # post) w = (rs1 @ (d, []) # rs3, w3)"
      using chunk_loop_append [OF assms(1), of worker c pre w rs1 v1 "d # post"] h by simp
    moreover have "map fst rs3 = post"
      using chunk_loop_ids [OF assms(1), of worker c post ?w] r3 by simp
    ultimately show "\<exists>rs3 w3. chunk_loop worker rnd c [] post ?w = (rs3, w3)
               \<and> chunk_loop worker rnd c [] (pre @ d # post) w = (rs1 @ (d, []) # rs3, w3)
               \<and> map fst rs3 = post"
      using r3 by blast
  qed
  have 4: "\<exists>L' w'. process_drug_batch net clock known batch L w =
              (Inr (concat (map (\<lambda>(n, drug_id). drug_pairs known drug_id (net n (drug_url drug_id)))
                              (enumerate (length (requested w)) batch))), L', w')
            \<and> requested w' = requested w @ map drug_url batch
            \<and> logged w' = logged w
                 @ concat (map (\<lambda>(n, drug_id). drug_events drug_id (net n (drug_url drug_id)))
                             (enumerate (length (requested w)) batch))"
    using drug_batch_loop_all [OF assms(2), of net clock known "[]" batch w]
    by (simp add: process_drug_batch_def)
  have 5: "drug_pairs known drug_id Raised = []"
    "drug_events drug_id Raised = [KeggException (drug_url drug_id)]"
    by (simp_all add: drug_pairs_def drug_events_def)
  from 0 2 6 1 3 4 5 show ?thesis
    by blast
qed

theorem item_failure_does_not_abort_witness:
  "unit_samples half_samples \<and> 1 \<le> max_calls (RateLimiter 50 60)
   \<and> failing_worker ''H00001'' world0 = (Inr ([''hsa04910''], ''H00001''), world0)
   \<and> process_diseases_chunk failing_worker half_samples [''H00001''] 7 world0 =
       ([(''H00001'', [''hsa04910''])],
        \<lparr>requested = [], slept = [3 / 4], drawn = 1, clock_reads = 0, logged = []\<rparr>)
   \<and> failing_worker ''H00002''
         \<lparr>requested = [], slept = [3 / 4], drawn = 1, clock_reads = 0, logged = []\<rparr> =
       (Inl (WorkerError ''boom''),
        \<lparr>requested = [], slept = [3 / 4], drawn = 1, clock_reads = 0, logged = []\<rparr>)
   \<and> process_diseases_chunk failing_worker half_samples [''H00002'', ''H00003''] 7
         \<lparr>requested = [], slept = [3 / 4], drawn = 1, clock_reads = 0, logged = []\<rparr> =
       ((''H00002'', []) #
          fst (process_diseases_chunk failing_worker half_samples [''H00003''] 7
                 \<lparr>requested = [], slept = [3 / 4], drawn = 1, clock_reads = 0,
                    logged = [ChunkError 7 ''H00002'' (WorkerError ''boom'')]\<rparr>),
        snd (process_diseases_chunk failing_worker half_samples [''H00003''] 7
               \<lparr>requested = [], slept = [3 / 4], drawn = 1, clock_reads = 0,
                  logged = [ChunkError 7 ''H00002'' (WorkerError ''boom'')]\<rparr>))
   \<and> process_diseases_chunk failing_worker half_samples [''H00001'', ''H00002'', ''H00003''] 7 world0 =
       ([(''H00001'', [''hsa04910'']), (''H00002'', []), (''H00003'', [''hsa04910''])],
        \<lparr>requested = [], slept = [3 / 4, 3 / 4], drawn = 2, clock_reads = 0,
           logged = [ChunkError 7 ''H00002'' (WorkerError ''boom'')]\<rparr>)
   \<and> fst (process_drug_batch middle_raises_server still_clock [''path:hsa04910'']
            [''D00001'', ''D00002'', ''D00003''] (RateLimiter 50 60) world0) =
       Inr [(''D00001'', ''path:hsa04910''), (''D00003'', ''path:hsa04910'')]
   \<and> requested (snd (snd (process_drug_batch middle_raises_server still_clock [''path:hsa04910'']
            [''D00001'', ''D00002'', ''D00003''] (RateLimiter 50 60) world0))) =
       [''http://rest.kegg.jp/get/D00001'', ''http://rest.kegg.jp/get/D00002'',
        ''http://rest.kegg.jp/get/D00003'']
   \<and> logged (snd (snd (process_drug_batch middle_raises_server still_clock [''path:hsa04910'']
            [''D00001'', ''D00002'', ''D00003''] (RateLimiter 50 60) world0))) =
       [KeggException ''http://rest.kegg.jp/get/D00002'']"
proof -
  let ?w1 = "\<lparr>requested = [], slept = [3 / 4], drawn = 1, clock_reads = 0, logged = []\<rparr>"
  let ?w2 = "\<lparr>requested = [], slept = [3 / 4], drawn = 1, clock_reads = 0,
                logged = [ChunkError 7 ''H00002'' (WorkerError ''boom'')]\<rparr>"
  have u: "unit_samples half_samples"
    by (simp add: unit_samples_def half_samples_def)
  have m: "1 \<le> max_calls (RateLimiter 50 60)"
    by (simp add: RateLimiter_def)
  have a0: "failing_worker ''H00001'' world0 = (Inr ([''hsa04910''], ''H00001''), world0)"
    by (simp add: failing_worker_def)
  have a: "process_diseases_chunk failing_worker half_samples [''H00001''] 7 world0 =
       ([(''H00001'', [''hsa04910''])], ?w1)"
    by (simp add: process_diseases_chunk_def failing_worker_def half_samples_def world0_def
        uniform_def sleep_def)
  have b: "failing_worker ''H00002'' ?w1 = (Inl (WorkerError ''boom''), ?w1)"
    by (simp add: failing_worker_def)
  have pr: "print (ChunkError 7 ''H00002'' (WorkerError ''boom'')) ?w1 = ?w2"
    by (simp add: print_def)
  have c: "process_diseases_chunk failing_worker half_samples [''H00003''] 7 ?w2 =
           ([(''H00003'', [''hsa04910''])],
            \<lparr>requested = [], slept = [3 / 4, 3 / 4], drawn = 2, clock_reads = 0,
               logged = [ChunkError 7 ''H00002'' (WorkerError ''boom'')]\<rparr>)"
    by (simp add: process_diseases_chunk_def failing_worker_def half_samples_def uniform_def
        sleep_def)
  have e: "enumerate (length (requested world0)) [''D00001'', ''D00002'', ''D00003'']
             = [(0, ''D00001''), (1, ''D00002''), (2, ''D00003'')]"
    by (simp add: world0_def)
  have x: "extract_pathways_from_entry ''PATHWAY hsa04910'' = [''path:hsa04910'']"
    by (simp add: extract_pathways_from_entry_def match_digits_def isdigit_def NL_def)
  have p: "drug_pairs [''path:hsa04910''] ''D00001''
             (middle_raises_server 0 (drug_url ''D00001'')) = [(''D00001'', ''path:hsa04910'')]"
    "drug_pairs [''path:hsa04910''] ''D00002''
             (middle_raises_server (Suc 0) (drug_url ''D00002'')) = []"
    "drug_pairs [''path:hsa04910''] ''D00003''
             (middle_raises_server 2 (drug_url ''D00003'')) = [(''D00003'', ''path:hsa04910'')]"
    by (simp_all add: drug_pairs_def middle_raises_server_def x)
  have v: "drug_events ''D00001'' (middle_raises_server 0 (drug_url ''D00001'')) = []"
    "drug_events ''D00002'' (middle_raises_server (Suc 0) (drug_url ''D00002''))
       = [KeggException ''http://rest.kegg.jp/get/D00002'']"
    "drug_events ''D00003'' (middle_raises_server 2 (drug_url ''D00003'')) = []"
    by (simp_all add: drug_events_def middle_raises_server_def drug_url_def KEGG_BASE_URL_def)
  have r: "map drug_url [''D00001'', ''D00002'', ''D00003''] =
       [''http://rest.kegg.jp/get/D00001'', ''http://rest.kegg.jp/get/D00002'',
        ''http://rest.kegg.jp/get/D00003'']"
    by (simp add: drug_url_def KEGG_BASE_URL_def)
  have w0: "requested world0 = []" "logged world0 = []" by (simp_all add: world0_def)
  note t = item_failure_does_not_abort [OF u m, where worker = failing_worker and c = 7
      and w = world0 and pre = "[''H00001'']" and ?rs1.0 = "[(''H00001'', [''hsa04910''])]"
      and ?v1.0 = ?w1 and d = "''H00002''" and e = "WorkerError ''boom''" and ?v2.0 = ?w1
      and post = "[''H00003'']" and net = middle_raises_server and clock = still_clock
      and known = "[''path:hsa04910'']" and batch = "[''D00001'', ''D00002'', ''D00003'']"]
  note s = item_failure_does_not_abort [OF u m, where worker = failing_worker and c = 7
      and w = ?w1 and d = "''H00002''" and e = "WorkerError ''boom''" and ?w1.0 = ?w1
      and ids = "[''H00003'']", THEN conjunct2, THEN conjunct1]
  have f: "process_diseases_chunk failing_worker half_samples [''H00002'', ''H00003''] 7 ?w1 =
       ((''H00002'', []) #
          fst (process_diseases_chunk failing_worker half_samples [''H00003''] 7 ?w2),
        snd (process_diseases_chunk failing_worker half_samples [''H00003''] 7 ?w2))"
    using s b unfolding pr by blast
  from t [THEN conjunct2, THEN conjunct2, THEN conjunct2, THEN conjunct2, THEN conjunct1] a b c
  have g: "process_diseases_chunk failing_worker half_samples
         ([''H00001''] @ ''H00002'' # [''H00003'']) 7 world0 =
       ([(''H00001'', [''hsa04910''])] @ (''H00002'', []) # [(''H00003'', [''hsa04910''])],
        \<lparr>requested = [], slept = [3 / 4, 3 / 4], drawn = 2, clock_reads = 0,
           logged = [ChunkError 7 ''H00002'' (WorkerError ''boom'')]\<rparr>)"
    unfolding pr by auto
  from t have
    "\<exists>L' w'. process_drug_batch middle_raises_server still_clock [''path:hsa04910'']
            [''D00001'', ''D00002'', ''D00003''] (RateLimiter 50 60) world0 =
         (Inr [(''D00001'', ''path:hsa04910''), (''D00003'', ''path:hsa04910'')], L', w')
       \<and> requested w' = [''http://rest.kegg.jp/get/D00001'', ''http://rest.kegg.jp/get/D00002'',
            ''http://rest.kegg.jp/get/D00003'']
       \<and> logged w' = [KeggException ''http://rest.kegg.jp/get/D00002'']"
    unfolding e r by (simp add: p v w0)
  then have h: "fst (process_drug_batch middle_raises_server still_clock [''path:hsa04910'']
            [''D00001'', ''D00002'', ''D00003''] (RateLimiter 50 60) world0) =
       Inr [(''D00001'', ''path:hsa04910''), (''D00003'', ''path:hsa04910'')]"
    "requested (snd (snd (process_drug_batch middle_raises_server still_clock [''path:hsa04910'']
            [''D00001'', ''D00002'', ''D00003''] (RateLimiter 50 60) world0))) =
       [''http://rest.kegg.jp/get/D00001'', ''http://rest.kegg.jp/get/D00002'',
        ''http://rest.kegg.jp/get/D00003'']"
    "logged (snd (snd (process_drug_batch middle_raises_server still_clock [''path:hsa04910'']
            [''D00001'', ''D00002'', ''D00003''] (RateLimiter 50 60) world0))) =
       [KeggException ''http://rest.kegg.jp/get/D00002'']"
    by auto
  from g have g': "process_diseases_chunk failing_worker half_samples
         [''H00001'', ''H00002'', ''H00003''] 7 world0 =
       ([(''H00001'', [''hsa04910'']), (''H00002'', []), (''H00003'', [''hsa04910''])],
        \<lparr>requested = [], slept = [3 / 4, 3 / 4], drawn = 2, clock_reads = 0,
           logged = [ChunkError 7 ''H00002'' (WorkerError ''boom'')]\<rparr>)"
    by simp
  show ?thesis
    using u m a0 a b f g' h by blast
qed






















section \<open>Properties of the end-to-end scenario\<close>

lemma make_request_first_success:
  assumes "net (length (requested w)) url = Responded r" and "status_code r = 200"
  shows "make_request_with_retry net rnd url 20 1 w =
           (Inr (Some r), w\<lparr>requested := requested w @ [url]\<rparr>)"
proof -
  have "[0..<nat 20] = 0 # [1..<nat 20]" by (simp add: upt_rec)
  then show ?thesis
    unfolding make_request_with_retry_def
    using disease_attempts_success_step [where net = net and w = w, OF assms] by simp
qed

lemma disease_attempts_no_data:
  assumes "\<forall>n. rejected (net n url)" and "\<forall>n. 0 \<le> rnd n" and "0 \<le> d"
  shows "\<exists>res w'. disease_attempts net rnd url m d atts w = (Inr res, w')
           \<and> stripped_lines res = None"
proof (induction atts arbitrary: w)
  case Nil
  show ?case by (simp add: stripped_lines_def)
next
  case (Cons a atts)
  show ?case
  proof (cases "failed (net (length (requested w)) url)")
    case True
    from disease_attempts_failed_step [of net w url d rnd m a atts] True assms(2,3)
    obtain ev where "disease_attempts net rnd url m d (a # atts) w =
           disease_attempts net rnd url m d atts
             (w\<lparr>requested := requested w @ [url],
                slept := slept w @ [disease_delay d (rnd (drawn w))],
                drawn := Suc (drawn w),
                logged := logged w @ [ev]\<rparr>)" by blast
    then show ?thesis using Cons.IH by simp
  next
    case False
    then obtain r where r: "net (length (requested w)) url = Responded r" "status_code r = 200"
      by (cases "net (length (requested w)) url") (auto simp: failed_def)
    have "rejected (net (length (requested w)) url)" using assms(1) by blast
    then have "strip (resp_text r) = []" using r by (simp add: rejected_def)
    then have "stripped_lines (Some r) = None" by (simp add: stripped_lines_def)
    then show ?thesis
      using disease_attempts_success_step [where net = net and w = w, OF r, of rnd m d a atts]
      by simp
  qed
qed

lemma make_request_no_data:
  assumes "\<forall>n. rejected (net n url)" and "\<forall>n. 0 \<le> rnd n" and "0 \<le> d"
  shows "\<exists>res w'. make_request_with_retry net rnd url m d w = (Inr res, w')
           \<and> stripped_lines res = None"
proof -
  from disease_attempts_no_data [where net = net and url = url and rnd = rnd and d = d
      and m = m and atts = "[0..<nat m]" and w = w] assms
  obtain res w' where "disease_attempts net rnd url m d [0..<nat m] w = (Inr res, w')"
    "stripped_lines res = None" by blast
  then show ?thesis
    by (cases res) (auto simp: make_request_with_retry_def)
qed

lemma link_answer_lines:
  "stripped_lines (Some \<lparr>status_code = 200, resp_text = h00001_link\<rparr>) = Some [h00001_link]"
  by (simp add: stripped_lines_def ok_def strip_def lstrip_def rstrip_def isspace_def
      TAB_def NL_def h00001_link_def)

lemma entry_answer_lines:
  "stripped_lines (Some \<lparr>status_code = 200, resp_text = h00001_entry\<rparr>) =
     Some [''ENTRY       H00001                      Disease'',
           ''NAME        B-cell acute lymphoblastic leukemia'',
           ''PATHWAY     hsa04930  Type II diabetes mellitus'',
           ''GENE        INS [HSA:3630]'',
           ''///'']"
  by (simp add: stripped_lines_def ok_def strip_def lstrip_def rstrip_def isspace_def
      h00001_entry_def NL_def)

lemma entry_answer_pathways:
  "scan_disease_entry False [''hsa04910'']
     [''ENTRY       H00001                      Disease'',
      ''NAME        B-cell acute lymphoblastic leukemia'',
      ''PATHWAY     hsa04930  Type II diabetes mellitus'',
      ''GENE        INS [HSA:3630]'',
      ''///''] = [''hsa04910'', ''hsa04930'']"
  by (simp add: add_match_def set_add_def strip_def lstrip_def rstrip_def isspace_def
      match_hsa5_def isdigit_def)


lemma get_disease_pathways_scenario:
  assumes "unit_samples rnd" and "\<forall>n. rejected (others n)"
  shows "\<exists>w'. get_disease_pathways (mock_kegg others) rnd listing ''H00001'' w =
           (Inr (listing [''hsa04910'', ''hsa04930''], ''H00001''), w')"
proof -
  define u1 where "u1 = ''https://rest.kegg.jp/link/pathway/'' @ ''H00001''"
  define u2 where "u2 = ''https://rest.kegg.jp/get/'' @ ''H00001''"
  define u3 where "u3 = ''https://rest.kegg.jp/link/hsa/'' @ ''H00001''"
  let ?r1 = "\<lparr>status_code = 200, resp_text = h00001_link\<rparr>"
  let ?r2 = "\<lparr>status_code = 200, resp_text = h00001_entry\<rparr>"
  have rnd: "\<forall>n. 0 \<le> rnd n" using assms(1) by (simp add: unit_samples_def)
  have m1: "mock_kegg others n u1 = Responded ?r1" for n
    by (simp add: mock_kegg_def u1_def)
  have m2: "mock_kegg others n u2 = Responded ?r2" for n
    by (simp add: mock_kegg_def u2_def)
  have m3: "\<forall>n. rejected (mock_kegg others n u3)"
    using assms(2) by (simp add: mock_kegg_def u3_def)
  have first: "\<exists>w'. make_request_with_retry (mock_kegg others) rnd u 20 1 v = (Inr (Some r), w')"
    if "\<And>n. mock_kegg others n u = Responded r" and "status_code r = 200" for u v r
    using make_request_first_success [where net = "mock_kegg others" and w = v and url = u
        and r = r and rnd = rnd] that by simp
  from first [OF m1] obtain w1 where
    w1: "make_request_with_retry (mock_kegg others) rnd u1 20 1 w = (Inr (Some ?r1), w1)"
    by auto
  from first [OF m2] obtain w2 where
    w2: "make_request_with_retry (mock_kegg others) rnd u2 20 1 w1 = (Inr (Some ?r2), w2)"
    by auto
  from make_request_no_data [where net = "mock_kegg others" and url = u3 and rnd = rnd
      and d = 1 and m = 20 and w = w2] m3 rnd
  obtain res w3 where
    w3: "make_request_with_retry (mock_kegg others) rnd u3 20 1 w2 = (Inr res, w3)"
      "stripped_lines res = None" by auto
  have sp: "split TAB h00001_link = [''H00001'', ''path:hsa04910'']"
    by (simp add: h00001_link_def TAB_def)
  have "get_disease_pathways (mock_kegg others) rnd listing ''H00001'' w =
           (Inr (listing [''hsa04910'', ''hsa04930''], ''H00001''), w3)"
    unfolding get_disease_pathways_def u1_def [symmetric] u2_def [symmetric] u3_def [symmetric]
    by (simp add: w1 w2 w3 link_answer_lines sp set_add_def entry_answer_lines
        entry_answer_pathways disease_entry_pathways_def del: scan_disease_entry.simps)
  then show ?thesis by blast
qed

lemma two_element_listing:
  assumes "length ps = 2" and "set ps = {a, b}"
  shows "ps = [a, b] \<or> ps = [b, a]"
proof -
  from assms(1) obtain x y where "ps = [x, y]"
    by (cases ps; cases "tl ps") auto
  then show ?thesis
    using assms(2) by (auto simp: doubleton_eq_iff)
qed

lemma write_sql_file_one_disease:
  assumes "pathways \<noteq> []"
  shows "write_sql_file [(disease_id, pathways)] =
     \<lparr>sql_file =
        [''BEGIN TRANSACTION;'' @ [NL, NL], ''DELETE FROM DiseasePathways;'' @ [NL],
         ''-- Inserting disease-pathway relationships'' @ [NL, NL]]
        @ map (\<lambda>pathway. ''INSERT INTO DiseasePathways (disease_id, pathway_id) VALUES (''
                 @ [CHR 0x27] @ disease_id @ [CHR 0x27] @ '', '' @ [CHR 0x27] @ ''path:'' @ pathway
                 @ [CHR 0x27] @ '');'' @ [NL]) pathways
        @ [[NL] @ ''COMMIT;'' @ [NL]],
      insert_count = int (length pathways),
      diseases_with_pathways = 1, diseases_without_pathways = 0\<rparr>"
proof -
  have "expected_inserts [(disease_id, pathways)] =
      map (\<lambda>pathway. ''INSERT INTO DiseasePathways (disease_id, pathway_id) VALUES (''
                 @ [CHR 0x27] @ disease_id @ [CHR 0x27] @ '', '' @ [CHR 0x27] @ ''path:'' @ pathway
                 @ [CHR 0x27] @ '');'' @ [NL]) pathways"
    unfolding expected_inserts_text by simp
  then show ?thesis
    using assms
    by (simp add: write_sql_file_def write_results_eq Let_def sql_header_def sql_footer_def)
qed

text \<open>
  Claim C5. For the disease list \<open>["H00001"]\<close>, a pathway-link endpoint answering
  the line \<open>H00001\<close>, tab, \<open>path:hsa04910\<close>, an entry whose PATHWAY section names
  hsa04930, and gene endpoints that give no data (each answer is an exception, a
  status other than 200 or a blank body), the worker returns for H00001 the two
  pathways hsa04910 and hsa04930, in the order in which Python lists the set; the
  chunk result holds them, and the SQL file written from it is the transaction
  begin, the DELETE, the comment, the two statements
  \<open>INSERT INTO DiseasePathways (disease_id, pathway_id) VALUES ('H00001', 'path:p');\<close>
  for the two pathways \<open>p\<close> in that order, and the commit; the counters are 2
  INSERT statements, 1 disease with pathways and none without.
\<close>

theorem disease_pipeline_scenario:
  assumes "unit_samples rnd" and "\<forall>n. rejected (others n)" and "lists_the_set listing"
  shows "\<exists>ps. (ps = [''hsa04910'', ''hsa04930''] \<or> ps = [''hsa04930'', ''hsa04910''])
       \<and> fst (get_disease_pathways (mock_kegg others) rnd listing ''H00001'' w) =
           Inr (ps, ''H00001'')
       \<and> fst (process_diseases_chunk (get_disease_pathways (mock_kegg others) rnd listing) rnd
                [''H00001''] chunk_id w) = [(''H00001'', ps)]
       \<and> write_sql_file
           (fst (process_diseases_chunk (get_disease_pathways (mock_kegg others) rnd listing) rnd
                   [''H00001''] chunk_id w)) =
           \<lparr>sql_file =
              [''BEGIN TRANSACTION;'' @ [NL, NL], ''DELETE FROM DiseasePathways;'' @ [NL],
               ''-- Inserting disease-pathway relationships'' @ [NL, NL]]
              @ map (\<lambda>pathway.
                       ''INSERT INTO DiseasePathways (disease_id, pathway_id) VALUES (''
                       @ [CHR 0x27] @ ''H00001'' @ [CHR 0x27] @ '', '' @ [CHR 0x27] @ ''path:''
                       @ pathway @ [CHR 0x27] @ '');'' @ [NL]) ps
              @ [[NL] @ ''COMMIT;'' @ [NL]],
            insert_count = 2, diseases_with_pathways = 1, diseases_without_pathways = 0\<rparr>"
proof -
  let ?ps = "listing [''hsa04910'', ''hsa04930'']"
  from get_disease_pathways_scenario [OF assms(1,2), of listing w]
  obtain w1 where g: "get_disease_pathways (mock_kegg others) rnd listing ''H00001'' w =
           (Inr (?ps, ''H00001''), w1)" by blast
  have "set ?ps = {''hsa04910'', ''hsa04930''}" and len: "length ?ps = 2"
    using assms(3) unfolding lists_the_set_def by simp_all
  then have order: "?ps = [''hsa04910'', ''hsa04930''] \<or> ?ps = [''hsa04930'', ''hsa04910'']"
    using two_element_listing [of ?ps "''hsa04910''" "''hsa04930''"] by blast
  have ne: "?ps \<noteq> []" using len by auto
  have c: "fst (process_diseases_chunk (get_disease_pathways (mock_kegg others) rnd listing) rnd
                  [''H00001''] chunk_id w) = [(''H00001'', ?ps)]"
    unfolding process_diseases_chunk_def
    using chunk_loop_done_step [where worker = "get_disease_pathways (mock_kegg others) rnd listing"
        and d = "''H00001''" and w = w and c = chunk_id and rs = "[]" and rest = "[]",
        OF assms(1) g]
    by simp
  have f: "write_sql_file
           (fst (process_diseases_chunk (get_disease_pathways (mock_kegg others) rnd listing) rnd
                   [''H00001''] chunk_id w)) =
           \<lparr>sql_file =
              [''BEGIN TRANSACTION;'' @ [NL, NL], ''DELETE FROM DiseasePathways;'' @ [NL],
               ''-- Inserting disease-pathway relationships'' @ [NL, NL]]
              @ map (\<lambda>pathway.
                       ''INSERT INTO DiseasePathways (disease_id, pathway_id) VALUES (''
                       @ [CHR 0x27] @ ''H00001'' @ [CHR 0x27] @ '', '' @ [CHR 0x27] @ ''path:''
                       @ pathway @ [CHR 0x27] @ '');'' @ [NL]) ?ps
              @ [[NL] @ ''COMMIT;'' @ [NL]],
            insert_count = 2, diseases_with_pathways = 1, diseases_without_pathways = 0\<rparr>"
    unfolding c write_sql_file_one_disease [OF ne] using len by simp
  have r: "fst (get_disease_pathways (mock_kegg others) rnd listing ''H00001'' w) =
           Inr (?ps, ''H00001'')"
    using g by simp
  from order r c f show ?thesis by blast
qed

theorem disease_pipeline_scenario_witness:
  "unit_samples half_samples \<and> (\<forall>n. rejected (empty_answers n))
   \<and> (\<forall>n. rejected (not_found_answers n))
   \<and> lists_the_set insertion_order \<and> lists_the_set reverse_order
   \<and> fst (get_disease_pathways (mock_kegg empty_answers) half_samples insertion_order
            ''H00001'' world0) = Inr ([''hsa04910'', ''hsa04930''], ''H00001'')
   \<and> fst (get_disease_pathways (mock_kegg not_found_answers) half_samples reverse_order
            ''H00001'' world0) = Inr ([''hsa04930'', ''hsa04910''], ''H00001'')
   \<and> concat (sql_file (write_sql_file
       (fst (process_diseases_chunk
               (get_disease_pathways (mock_kegg empty_answers) half_samples insertion_order)
               half_samples [''H00001''] 0 world0)))) =
       ''BEGIN TRANSACTION;'' @ [CHR 0x0A, CHR 0x0A] @
       ''DELETE FROM DiseasePathways;'' @ [CHR 0x0A] @
       ''-- Inserting disease-pathway relationships'' @ [CHR 0x0A, CHR 0x0A] @
       ''INSERT INTO DiseasePathways (disease_id, pathway_id) VALUES ('' @ [CHR 0x27] @ ''H00001''
         @ [CHR 0x27] @ '', '' @ [CHR 0x27] @ ''path:hsa04910'' @ [CHR 0x27] @ '');'' @ [CHR 0x0A] @
       ''INSERT INTO DiseasePathways (disease_id, pathway_id) VALUES ('' @ [CHR 0x27] @ ''H00001''
         @ [CHR 0x27] @ '', '' @ [CHR 0x27] @ ''path:hsa04930'' @ [CHR 0x27] @ '');'' @ [CHR 0x0A] @
       [CHR 0x0A] @ ''COMMIT;'' @ [CHR 0x0A]
   \<and> insert_count (write_sql_file
       (fst (process_diseases_chunk
               (get_disease_pathways (mock_kegg empty_answers) half_samples insertion_order)
               half_samples [''H00001''] 0 world0))) = 2
   \<and> concat (sql_file (write_sql_file
       (fst (process_diseases_chunk
               (get_disease_pathways (mock_kegg not_found_answers) half_samples reverse_order)
               half_samples [''H00001''] 0 world0)))) =
       ''BEGIN TRANSACTION;'' @ [CHR 0x0A, CHR 0x0A] @
       ''DELETE FROM DiseasePathways;'' @ [CHR 0x0A] @
       ''-- Inserting disease-pathway relationships'' @ [CHR 0x0A, CHR 0x0A] @
       ''INSERT INTO DiseasePathways (disease_id, pathway_id) VALUES ('' @ [CHR 0x27] @ ''H00001''
         @ [CHR 0x27] @ '', '' @ [CHR 0x27] @ ''path:hsa04930'' @ [CHR 0x27] @ '');'' @ [CHR 0x0A] @
       ''INSERT INTO DiseasePathways (disease_id, pathway_id) VALUES ('' @ [CHR 0x27] @ ''H00001''
         @ [CHR 0x27] @ '', '' @ [CHR 0x27] @ ''path:hsa04910'' @ [CHR 0x27] @ '');'' @ [CHR 0x0A] @
       [CHR 0x0A] @ ''COMMIT;'' @ [CHR 0x0A]"
proof -
  have u: "unit_samples half_samples"
    by (simp add: unit_samples_def half_samples_def)
  have e: "\<forall>n. rejected (empty_answers n)"
    by (simp add: empty_answers_def rejected_def strip_def lstrip_def rstrip_def)
  have n: "\<forall>n. rejected (not_found_answers n)"
    by (simp add: not_found_answers_def rejected_def)
  have li: "lists_the_set insertion_order" "lists_the_set reverse_order"
    by (simp_all add: lists_the_set_def insertion_order_def reverse_order_def)
  from get_disease_pathways_scenario [OF u e, of insertion_order world0]
  have gi: "fst (get_disease_pathways (mock_kegg empty_answers) half_samples insertion_order
            ''H00001'' world0) = Inr ([''hsa04910'', ''hsa04930''], ''H00001'')"
    by (auto simp: insertion_order_def)
  from get_disease_pathways_scenario [OF u n, of reverse_order world0]
  have gr: "fst (get_disease_pathways (mock_kegg not_found_answers) half_samples reverse_order
            ''H00001'' world0) = Inr ([''hsa04930'', ''hsa04910''], ''H00001'')"
    by (auto simp: reverse_order_def)
  from disease_pipeline_scenario [OF u e li(1), of world0 0] gi
  have fi: "write_sql_file
       (fst (process_diseases_chunk
               (get_disease_pathways (mock_kegg empty_answers) half_samples insertion_order)
               half_samples [''H00001''] 0 world0)) =
           \<lparr>sql_file =
              [''BEGIN TRANSACTION;'' @ [NL, NL], ''DELETE FROM DiseasePathways;'' @ [NL],
               ''-- Inserting disease-pathway relationships'' @ [NL, NL]]
              @ map (\<lambda>pathway.
                       ''INSERT INTO DiseasePathways (disease_id, pathway_id) VALUES (''
                       @ [CHR 0x27] @ ''H00001'' @ [CHR 0x27] @ '', '' @ [CHR 0x27] @ ''path:''
                       @ pathway @ [CHR 0x27] @ '');'' @ [NL]) [''hsa04910'', ''hsa04930'']
              @ [[NL] @ ''COMMIT;'' @ [NL]],
            insert_count = 2, diseases_with_pathways = 1, diseases_without_pathways = 0\<rparr>"
    by auto
  from disease_pipeline_scenario [OF u n li(2), of world0 0] gr
  have fr: "write_sql_file
       (fst (process_diseases_chunk
               (get_disease_pathways (mock_kegg not_found_answers) half_samples reverse_order)
               half_samples [''H00001''] 0 world0)) =
           \<lparr>sql_file =
              [''BEGIN TRANSACTION;'' @ [NL, NL], ''DELETE FROM DiseasePathways;'' @ [NL],
               ''-- Inserting disease-pathway relationships'' @ [NL, NL]]
              @ map (\<lambda>pathway.
                       ''INSERT INTO DiseasePathways (disease_id, pathway_id) VALUES (''
                       @ [CHR 0x27] @ ''H00001'' @ [CHR 0x27] @ '', '' @ [CHR 0x27] @ ''path:''
                       @ pathway @ [CHR 0x27] @ '');'' @ [NL]) [''hsa04930'', ''hsa04910'']
              @ [[NL] @ ''COMMIT;'' @ [NL]],
            insert_count = 2, diseases_with_pathways = 1, diseases_without_pathways = 0\<rparr>"
    by auto
  show ?thesis
    unfolding fi fr using u e n li gi gr by (simp add: NL_def)
qed

end
